theory Spec2Isabelle
  imports Complex_Main "HOL-Library.Word"
begin

unbundle bit_operations_syntax

section \<open>JSON values and the Python operations used on them\<close>

text \<open>
  Every payload the normalizers read is the result of \<^verbatim>\<open>json.loads\<close>: \<^verbatim>\<open>None\<close>, a bool,
  a number, a \<^verbatim>\<open>str\<close>, a \<^verbatim>\<open>list\<close> or a \<^verbatim>\<open>dict\<close> with \<^verbatim>\<open>str\<close> keys. A dict is an
  association list in insertion order; a parsed dict has no repeated key, and lookup
  takes the first entry. A \<^verbatim>\<open>str\<close> of a payload is a list of code points below 256; the
  identity scheme below is modelled on every code point.
\<close>

datatype json =
    JNull
  | JBool bool
  | JInt int
  | JFloat real
  | JStr string
  | JList "json list"
  | JDict "(string \<times> json) list"

type_synonym pydict = "(string \<times> json) list"

datatype py_error =
  KeyError | TypeError | AttributeError | ValueError | IndexError | UnicodeEncodeError

text \<open>The exception raised by an operand ends the surrounding expression.\<close>

definition and_then :: "py_error + 'a \<Rightarrow> ('a \<Rightarrow> py_error + 'b) \<Rightarrow> py_error + 'b" where
  "and_then m f = (case m of Inl e \<Rightarrow> Inl e | Inr x \<Rightarrow> f x)"

text \<open>Python's truth value of a JSON value (\<^verbatim>\<open>if v\<close>, \<^verbatim>\<open>a or b\<close>, \<^verbatim>\<open>a and b\<close>).\<close>

fun truthy :: "json \<Rightarrow> bool" where
  "truthy JNull = False"
| "truthy (JBool b) = b"
| "truthy (JInt i) = (i \<noteq> 0)"
| "truthy (JFloat r) = (r \<noteq> 0)"
| "truthy (JStr s) = (s \<noteq> [])"
| "truthy (JList xs) = (xs \<noteq> [])"
| "truthy (JDict d) = (d \<noteq> [])"

text \<open>\<^verbatim>\<open>d.get(k, default)\<close> and \<^verbatim>\<open>k in d\<close> on a dict.\<close>

definition dget :: "pydict \<Rightarrow> string \<Rightarrow> json \<Rightarrow> json" where
  "dget d k dflt = (case map_of d k of None \<Rightarrow> dflt | Some v \<Rightarrow> v)"

definition has_key :: "pydict \<Rightarrow> string \<Rightarrow> bool" where
  "has_key d k = (map_of d k \<noteq> None)"

text \<open>\<^verbatim>\<open>[b for b in content if isinstance(b, dict)]\<close> and the same for \<^verbatim>\<open>str\<close>.\<close>

fun dicts_of :: "json list \<Rightarrow> pydict list" where
  "dicts_of [] = []"
| "dicts_of (JDict d # xs) = d # dicts_of xs"
| "dicts_of (x # xs) = dicts_of xs"

fun strs_of :: "json list \<Rightarrow> string list" where
  "strs_of [] = []"
| "strs_of (JStr s # xs) = s # strs_of xs"
| "strs_of (x # xs) = strs_of xs"

text \<open>\<^verbatim>\<open>sep.join(items)\<close>: every item must be a \<^verbatim>\<open>str\<close>, otherwise \<^verbatim>\<open>TypeError\<close>.\<close>

fun join :: "string \<Rightarrow> string list \<Rightarrow> string" where
  "join sep [] = []"
| "join sep [x] = x"
| "join sep (x # y # ys) = x @ sep @ join sep (y # ys)"

fun str_items :: "json list \<Rightarrow> py_error + string list" where
  "str_items [] = Inr []"
| "str_items (JStr s # xs) = and_then (str_items xs) (\<lambda>ss. Inr (s # ss))"
| "str_items (x # xs) = Inl TypeError"

definition join_json :: "string \<Rightarrow> json list \<Rightarrow> py_error + string" where
  "join_json sep xs = and_then (str_items xs) (\<lambda>ss. Inr (join sep ss))"

text \<open>
  \<^verbatim>\<open>s.strip()\<close>: the whitespace code points below 256 are 9 to 13, 28 to 32, 133
  and 160.
\<close>

definition is_space :: "char \<Rightarrow> bool" where
  "is_space c =
     (let n = (of_char c :: nat)
      in (9 \<le> n \<and> n \<le> 13) \<or> (28 \<le> n \<and> n \<le> 32) \<or> n = 133 \<or> n = 160)"

definition strip :: "string \<Rightarrow> string" where
  "strip s = rev (dropWhile is_space (rev (dropWhile is_space s)))"

definition nl :: string where
  "nl = [CHR 0x0A]"

text \<open>\<^verbatim>\<open>str(n)\<close> of a non-negative \<^verbatim>\<open>int\<close>, as an f-string prints an index.\<close>

function str_nat :: "nat \<Rightarrow> string" where
  "str_nat n =
     (if n < 10 then [''0123456789'' ! n]
      else str_nat (n div 10) @ [''0123456789'' ! (n mod 10)])"
  by pat_completeness auto
termination
  by (relation "measure id") auto

declare str_nat.simps [simp del]

lemma str_nat_digit: "n < 10 \<Longrightarrow> str_nat n = [''0123456789'' ! n]"
  by (simp add: str_nat.simps)

lemma str_nat_more:
  "\<not> n < 10 \<Longrightarrow> str_nat n = str_nat (n div 10) @ [''0123456789'' ! (n mod 10)]"
  by (subst str_nat.simps) simp

section \<open>The content-union extractor\<close>

record content =
  c_text :: string
  c_thinking :: "string option"
  c_tools :: "pydict list"
  c_attachments :: "pydict list"

text \<open>
  The item a block contributes to the text join:
  \<^verbatim>\<open>b.get("text", "") or b.get("thinking", "") if b.get("type") in ("text", None) else ""\<close>.
\<close>

definition text_item :: "pydict \<Rightarrow> json" where
  "text_item b =
     (let ty = dget b ''type'' JNull
      in if ty = JStr ''text'' \<or> ty = JNull
         then (let t = dget b ''text'' (JStr '''')
               in if truthy t then t else dget b ''thinking'' (JStr ''''))
         else JStr '''')"

text \<open>
  The items of the thinking join: \<^verbatim>\<open>b["thinking"]\<close> for the blocks with
  \<^verbatim>\<open>b.get("type") == "thinking" and b.get("thinking")\<close>.
\<close>

definition is_thinking :: "pydict \<Rightarrow> bool" where
  "is_thinking b = (dget b ''type'' JNull = JStr ''thinking'' \<and> truthy (dget b ''thinking'' JNull))"

definition thinking_item :: "pydict \<Rightarrow> json" where
  "thinking_item b = dget b ''thinking'' JNull"

text \<open>
  \<^verbatim>\<open>[{"name": b["name"], "input": b.get("input", {}), "id": b.get("id")} for b in blocks
     if b.get("type") == "tool_use"]\<close>: the subscript \<^verbatim>\<open>b["name"]\<close> raises \<^verbatim>\<open>KeyError\<close>
  on a block without a name.
\<close>

fun tool_uses :: "pydict list \<Rightarrow> py_error + pydict list" where
  "tool_uses [] = Inr []"
| "tool_uses (b # bs) =
     (if dget b ''type'' JNull = JStr ''tool_use''
      then (case map_of b ''name'' of
              None \<Rightarrow> Inl KeyError
            | Some n \<Rightarrow>
                and_then (tool_uses bs) (\<lambda>ts.
                  Inr ([(''name'', n), (''input'', dget b ''input'' (JDict [])),
                        (''id'', dget b ''id'' JNull)] # ts)))
      else tool_uses bs)"

definition tool_results :: "pydict list \<Rightarrow> pydict list" where
  "tool_results blocks =
     map (\<lambda>b. [(''id'', dget b ''tool_use_id'' JNull), (''output'', dget b ''content'' (JStr ''''))])
       (filter (\<lambda>b. dget b ''type'' JNull = JStr ''tool_result'') blocks)"

definition is_attachment :: "pydict \<Rightarrow> bool" where
  "is_attachment b =
     (let ty = dget b ''type'' JNull; ct = dget b ''content_type'' JNull
      in ty = JStr ''image_asset_pointer'' \<or> ty = JStr ''file''
         \<or> ct = JStr ''image_asset_pointer'' \<or> ct = JStr ''file'')"

definition attachment_of :: "pydict \<Rightarrow> pydict" where
  "attachment_of b =
     [(''filename'', dget b ''name'' (dget b ''file_name'' JNull)),
      (''mime_type'', dget b ''content_type'' (dget b ''file_type'' JNull)),
      (''size'', dget b ''size'' (dget b ''file_size'' JNull)),
      (''url'', dget b ''asset_pointer'' (dget b ''url'' JNull))]"

text \<open>
  \<^verbatim>\<open>extract_content\<close>. The dict display evaluates its values in the order text, thinking,
  tools, attachments, so the first failing one decides the exception.
\<close>

definition extract_content :: "json \<Rightarrow> py_error + content" where
  "extract_content cont =
     (case cont of
        JStr s \<Rightarrow> Inr \<lparr>c_text = s, c_thinking = None, c_tools = [], c_attachments = []\<rparr>
      | JList xs \<Rightarrow>
          (let blocks = dicts_of xs in
           and_then (join_json nl (map text_item blocks)) (\<lambda>t1.
           and_then (join_json nl (map thinking_item (filter is_thinking blocks))) (\<lambda>th.
           and_then (tool_uses blocks) (\<lambda>tu.
             Inr \<lparr>c_text = (if strip t1 \<noteq> [] then strip t1 else strip (join nl (strs_of xs))),
                  c_thinking = (if strip th \<noteq> [] then Some (strip th) else None),
                  c_tools = tu @ tool_results blocks,
                  c_attachments = map attachment_of (filter is_attachment blocks)\<rparr>))))
      | _ \<Rightarrow> Inr \<lparr>c_text = [], c_thinking = None, c_tools = [], c_attachments = []\<rparr>)"

section \<open>Properties of the extractor\<close>

lemma is_space_simps:
  "is_space CHR 0x0A" "is_space CHR '' ''" "\<not> is_space CHR ''T''" "\<not> is_space CHR ''X''"
  "\<not> is_space CHR ''p''" "\<not> is_space CHR ''n''"
  by (simp_all add: is_space_def)

text \<open>
  C5. On the block list of a thinking block "T" followed by a text block "X" the extractor
  returns reasoning "T" and text "X"; on the plain string "plain" it returns the text
  "plain" and no reasoning.
\<close>

theorem extract_content_union:
  "extract_content (JList [JDict [(''type'', JStr ''thinking''), (''thinking'', JStr ''T'')],
                           JDict [(''type'', JStr ''text''), (''text'', JStr ''X'')]])
     = Inr \<lparr>c_text = ''X'', c_thinking = Some ''T'', c_tools = [], c_attachments = []\<rparr>
   \<and> extract_content (JStr ''plain'')
     = Inr \<lparr>c_text = ''plain'', c_thinking = None, c_tools = [], c_attachments = []\<rparr>"
  by (simp add: extract_content_def join_json_def and_then_def text_item_def thinking_item_def
      is_thinking_def dget_def strip_def nl_def is_space_simps tool_results_def is_attachment_def)

text \<open>
  C1. The extractor is meant to return a result for every content value. A block typed
  "tool_use" that has no name makes it raise \<^verbatim>\<open>KeyError\<close> instead.
\<close>

theorem extract_content_tool_use_without_name:
  "extract_content (JList [JDict [(''type'', JStr ''tool_use'')]]) = Inl KeyError"
  by (simp add: extract_content_def join_json_def and_then_def text_item_def thinking_item_def
      is_thinking_def dget_def)

section \<open>The identity scheme\<close>

text \<open>
  \<^verbatim>\<open>gen_id(source, oid) = hashlib.sha256(f"{source}:{oid}".encode()).hexdigest()[:16]\<close>.
  SHA-256 is the function of FIPS 180-4, on 32-bit words held as naturals with the
  wrap-around written out; a byte is a natural below 256.
\<close>

definition add32 :: "nat \<Rightarrow> nat \<Rightarrow> nat" where
  "add32 a b = (a + b) mod 4294967296"

definition not32 :: "nat \<Rightarrow> nat" where
  "not32 x = 4294967295 - x"

definition shr :: "nat \<Rightarrow> nat \<Rightarrow> nat" where
  "shr n x = x div 2 ^ n"

definition rotr :: "nat \<Rightarrow> nat \<Rightarrow> nat" where
  "rotr n x = x div 2 ^ n + (x mod 2 ^ n) * 2 ^ (32 - n)"

definition Ch :: "nat \<Rightarrow> nat \<Rightarrow> nat \<Rightarrow> nat" where
  "Ch e f g = (e AND f) XOR (not32 e AND g)"

definition Maj :: "nat \<Rightarrow> nat \<Rightarrow> nat \<Rightarrow> nat" where
  "Maj a b c = (a AND b) XOR (a AND c) XOR (b AND c)"

definition Sigma0 :: "nat \<Rightarrow> nat" where
  "Sigma0 x = rotr 2 x XOR rotr 13 x XOR rotr 22 x"

definition Sigma1 :: "nat \<Rightarrow> nat" where
  "Sigma1 x = rotr 6 x XOR rotr 11 x XOR rotr 25 x"

definition sigma0 :: "nat \<Rightarrow> nat" where
  "sigma0 x = rotr 7 x XOR rotr 18 x XOR shr 3 x"

definition sigma1 :: "nat \<Rightarrow> nat" where
  "sigma1 x = rotr 17 x XOR rotr 19 x XOR shr 10 x"

text \<open>The round constants and the initial hash value of FIPS 180-4, written in decimal.\<close>

definition K256 :: "nat list" where
  "K256 = [
   1116352408, 1899447441, 3049323471, 3921009573, 961987163, 1508970993,
   2453635748, 2870763221, 3624381080, 310598401, 607225278, 1426881987,
   1925078388, 2162078206, 2614888103, 3248222580, 3835390401, 4022224774,
   264347078, 604807628, 770255983, 1249150122, 1555081692, 1996064986,
   2554220882, 2821834349, 2952996808, 3210313671, 3336571891, 3584528711,
   113926993, 338241895, 666307205, 773529912, 1294757372, 1396182291,
   1695183700, 1986661051, 2177026350, 2456956037, 2730485921, 2820302411,
   3259730800, 3345764771, 3516065817, 3600352804, 4094571909, 275423344,
   430227734, 506948616, 659060556, 883997877, 958139571, 1322822218,
   1537002063, 1747873779, 1955562222, 2024104815, 2227730452, 2361852424,
   2428436474, 2756734187, 3204031479, 3329325298]"

type_synonym hstate = "nat \<times> nat \<times> nat \<times> nat \<times> nat \<times> nat \<times> nat \<times> nat"

definition H0 :: hstate where
  "H0 = (1779033703, 3144134277, 1013904242, 2773480762, 1359893119, 2600822924, 528734635, 1541459225)"

fun round256 :: "nat \<Rightarrow> nat \<Rightarrow> hstate \<Rightarrow> hstate" where
  "round256 k w (a, b, c, d, e, f, g, h) =
     (let t1 = add32 (add32 (add32 (add32 h (Sigma1 e)) (Ch e f g)) k) w;
          t2 = add32 (Sigma0 a) (Maj a b c)
      in (add32 t1 t2, a, b, c, add32 d t1, e, f, g))"

text \<open>The sixteen most recent words of the message schedule, oldest first.\<close>

definition next_window :: "nat list \<Rightarrow> nat list" where
  "next_window ws =
     tl ws @ [add32 (add32 (add32 (sigma1 (ws ! 14)) (ws ! 9)) (sigma0 (ws ! 1))) (ws ! 0)]"

fun rounds :: "nat list \<Rightarrow> nat list \<Rightarrow> hstate \<Rightarrow> hstate" where
  "rounds [] ws st = st"
| "rounds (k # ks) ws st = rounds ks (next_window ws) (round256 k (ws ! 0) st)"

fun add_state :: "hstate \<Rightarrow> hstate \<Rightarrow> hstate" where
  "add_state (a, b, c, d, e, f, g, h) (a', b', c', d', e', f', g', h') =
     (add32 a a', add32 b b', add32 c c', add32 d d',
      add32 e e', add32 f f', add32 g g', add32 h h')"

definition compress :: "hstate \<Rightarrow> nat list \<Rightarrow> hstate" where
  "compress st ws = add_state st (rounds K256 ws st)"

fun be_words :: "nat list \<Rightarrow> nat list" where
  "be_words (b0 # b1 # b2 # b3 # bs) = (b0 * 16777216 + b1 * 65536 + b2 * 256 + b3) # be_words bs"
| "be_words bs = []"

definition be64 :: "nat \<Rightarrow> nat list" where
  "be64 n = map (\<lambda>i. (n div 256 ^ i) mod 256) [7, 6, 5, 4, 3, 2, 1, 0]"

definition pad :: "nat list \<Rightarrow> nat list" where
  "pad bs = bs @ [128] @ replicate ((119 - length bs mod 64) mod 64) 0 @ be64 (8 * length bs)"

fun blocks :: "nat \<Rightarrow> nat list \<Rightarrow> hstate \<Rightarrow> hstate" where
  "blocks 0 bs st = st"
| "blocks (Suc n) bs st = blocks n (drop 64 bs) (compress st (be_words (take 64 bs)))"

definition sha256 :: "nat list \<Rightarrow> hstate" where
  "sha256 bs = (let p = pad bs in blocks (length p div 64) p H0)"

definition hex_digit :: "nat \<Rightarrow> char" where
  "hex_digit n = ''0123456789abcdef'' ! n"

definition hex_word :: "nat \<Rightarrow> string" where
  "hex_word w = map (\<lambda>i. hex_digit ((w div 16 ^ i) mod 16)) [7, 6, 5, 4, 3, 2, 1, 0]"

fun hexdigest :: "hstate \<Rightarrow> string" where
  "hexdigest (a, b, c, d, e, f, g, h) =
     hex_word a @ hex_word b @ hex_word c @ hex_word d @
     hex_word e @ hex_word f @ hex_word g @ hex_word h"

text \<open>
  \<^verbatim>\<open>s.encode()\<close>. A \<^verbatim>\<open>str\<close> is a list of code points from 0 to 1114111, here a list of
  naturals. The UTF-8 of a code point has one to four bytes, and a surrogate (55296 to
  57343) has none: \<^verbatim>\<open>encode\<close> raises \<^verbatim>\<open>UnicodeEncodeError\<close> on a string that holds
  one, as \<^verbatim>\<open>json.loads\<close> returns for an escaped lone surrogate and \<^verbatim>\<open>os.fsdecode\<close> for
  a file name that is not UTF-8.
\<close>

definition is_surrogate :: "nat \<Rightarrow> bool" where
  "is_surrogate cp = (55296 \<le> cp \<and> cp \<le> 57343)"

definition utf8_char :: "nat \<Rightarrow> nat list" where
  "utf8_char cp =
     (if cp < 128 then [cp]
      else if cp < 2048 then [192 + cp div 64, 128 + cp mod 64]
      else if cp < 65536 then [224 + cp div 4096, 128 + cp div 64 mod 64, 128 + cp mod 64]
      else [240 + cp div 262144, 128 + cp div 4096 mod 64, 128 + cp div 64 mod 64,
            128 + cp mod 64])"

definition encode :: "nat list \<Rightarrow> py_error + nat list" where
  "encode s =
     (if list_ex is_surrogate s then Inl UnicodeEncodeError
      else Inr (concat (map utf8_char s)))"

text \<open>\<^verbatim>\<open>gen_id\<close>; the f-string puts the colon, code point 58, between the two strings.\<close>

definition gen_id :: "nat list \<Rightarrow> nat list \<Rightarrow> py_error + string" where
  "gen_id source oid =
     and_then (encode (source @ [58] @ oid)) (\<lambda>bs. Inr (take 16 (hexdigest (sha256 bs))))"

text \<open>
  The strings of the payload model hold code points below 256, so none is a surrogate
  and their encoding cannot fail: on them \<^verbatim>\<open>gen_id\<close> is the total function \<open>gen_id8\<close>
  (lemma \<open>gen_id_points\<close>).
\<close>

definition points :: "string \<Rightarrow> nat list" where
  "points s = map of_char s"

definition gen_id8 :: "string \<Rightarrow> string \<Rightarrow> string" where
  "gen_id8 source oid =
     take 16 (hexdigest (sha256 (concat (map utf8_char (points (source @ '':'' @ oid))))))"

subsection \<open>Evaluating the hash\<close>

lemma replicate_numeral: "replicate (numeral k) x = x # replicate (pred_numeral k) x"
  by (simp add: numeral_eq_Suc)

lemma blocks_numeral:
  "blocks (numeral k) bs st =
     blocks (pred_numeral k) (drop 64 bs) (compress st (be_words (take 64 bs)))"
  by (simp add: numeral_eq_Suc)

lemmas sha_simps = add32_def not32_def shr_def rotr_def Ch_def Maj_def Sigma0_def Sigma1_def
  sigma0_def sigma1_def gen_id8_def sha256_def points_def utf8_char_def pad_def be64_def
  compress_def K256_def H0_def next_window_def hex_word_def hex_digit_def replicate_numeral
  blocks_numeral gen_id_def encode_def is_surrogate_def and_then_def

text \<open>The test vectors of the standard: the empty message, "abc" and the 56-byte message.\<close>

lemma sha256_empty:
  "hexdigest (sha256 [])
     = ''e3b0c44298fc1c149afbf4c8996fb92427ae41e4649b934ca495991b7852b855''"
  by (simp add: sha_simps)

lemma sha256_abc:
  "hexdigest (sha256 [97, 98, 99])
     = ''ba7816bf8f01cfea414140de5dae2223b00361a396177a9cb410ff61f20015ad''"
  by (simp add: sha_simps)

lemma sha256_two_blocks:
  "hexdigest (sha256 (points ''abcdbcdecdefdefgefghfghighijhijkijkljklmklmnlmnomnopnopq''))
     = ''248d6a61d20638b8e5c026930c3e6039a33ce45964ff2167f6ecedd419db06c1''"
  by (simp add: sha_simps)

lemma gen_id_claude_x: "gen_id8 ''claude'' ''x'' = ''db5c72b9eacb5a8c''"
  by (simp add: sha_simps)

lemma gen_id_chatgpt_x: "gen_id8 ''chatgpt'' ''x'' = ''ab855a864005ec9f''"
  by (simp add: sha_simps)

text \<open>
  The source "caf" with an e acute and the key of a euro sign and an emoji, characters of
  two, three and four bytes; and the path of a session log, 70 bytes and two blocks with its source.
\<close>

lemma gen_id_multibyte: "gen_id [99, 97, 102, 233] [8364, 128512] = Inr ''0822cce73c455700''"
  by (simp add: sha_simps)

lemma gen_id_long:
  "gen_id8 ''claude-code'' ''/home/user/.claude/projects/-home-user-proj/0123abcd.jsonl''
     = ''b264bd8be015adca''"
  by (simp add: sha_simps)

lemma length_hexdigest: "length (hexdigest st) = 64"
  by (cases st rule: hexdigest.cases) (simp add: hex_word_def)

lemma length_gen_id: "length (gen_id8 source oid) = 16"
  by (simp add: gen_id8_def length_hexdigest)

lemma hex_digit_mem: "n < 16 \<Longrightarrow> hex_digit n \<in> set ''0123456789abcdef''"
  unfolding hex_digit_def by (rule nth_mem) simp

lemma set_hex_word: "set (hex_word w) \<subseteq> set ''0123456789abcdef''"
proof -
  have "hex_digit ((w div 16 ^ i) mod 16) \<in> set ''0123456789abcdef''" for i
    by (rule hex_digit_mem) simp
  then show ?thesis
    unfolding hex_word_def set_map by (intro image_subsetI)
qed

lemma set_hexdigest: "set (hexdigest st) \<subseteq> set ''0123456789abcdef''"
proof (cases st rule: hexdigest.cases)
  case (1 a b c d e f g h)
  show ?thesis
    unfolding 1 hexdigest.simps set_append using set_hex_word by blast
qed

lemma set_gen_id: "set (gen_id8 source oid) \<subseteq> set ''0123456789abcdef''"
  unfolding gen_id8_def using set_take_subset set_hexdigest by fast

lemma points_no_surrogate: "\<not> list_ex is_surrogate (points s)"
proof -
  have small: "(of_char c :: nat) < 256" for c :: char
    by (cases c) simp
  have "\<not> is_surrogate (of_char c)" for c :: char
    using small[of c] unfolding is_surrogate_def by linarith
  then show ?thesis by (simp add: points_def list_ex_iff)
qed

lemma gen_id_points: "gen_id (points s) (points k) = Inr (gen_id8 s k)"
proof -
  have "points s @ [58] @ points k = points (s @ '':'' @ k)"
    by (simp add: points_def)
  then show ?thesis
    using points_no_surrogate[of "s @ '':'' @ k"]
    by (simp add: gen_id_def gen_id8_def encode_def and_then_def)
qed

lemma gen_id_cases:
  "gen_id s k =
     (if list_ex is_surrogate (s @ k) then Inl UnicodeEncodeError
      else Inr (take 16 (hexdigest (sha256 (concat (map utf8_char (s @ [58] @ k)))))))"
  by (simp add: gen_id_def encode_def and_then_def is_surrogate_def)

lemma utf8_boundaries:
  "encode [127] = Inr [127]" "encode [128] = Inr [194, 128]" "encode [2047] = Inr [223, 191]"
  "encode [2048] = Inr [224, 160, 128]" "encode [55295] = Inr [237, 159, 191]"
  "encode [55296] = Inl UnicodeEncodeError" "encode [57343] = Inl UnicodeEncodeError"
  "encode [57344] = Inr [238, 128, 128]" "encode [65535] = Inr [239, 191, 191]"
  "encode [65536] = Inr [240, 144, 128, 128]" "encode [1114111] = Inr [244, 143, 191, 191]"
  by (simp_all add: encode_def utf8_char_def is_surrogate_def)

text \<open>
  C3, as the code has it. The identifier of a source and a key is the first 16
  hexadecimal characters of the SHA-256 of the UTF-8 of "source:key" when neither string
  holds a surrogate, and \<^verbatim>\<open>gen_id\<close> raises \<^verbatim>\<open>UnicodeEncodeError\<close> otherwise. It depends
  on nothing but the two strings, so equal inputs give equal identifiers. The
  identifiers of ("claude", "x") and ("chatgpt", "x") differ. The encoding and the hash
  are the ones of \<^verbatim>\<open>str.encode\<close> and \<^verbatim>\<open>hashlib\<close> at the boundaries of the four byte
  lengths, on a key with characters of each length, on a message of two blocks and on
  the test vectors of the standard.
\<close>

theorem gen_id_identity:
  "gen_id s k =
     (if list_ex is_surrogate (s @ k) then Inl UnicodeEncodeError
      else Inr (take 16 (hexdigest (sha256 (concat (map utf8_char (s @ [58] @ k)))))))
   \<and> (case gen_id s k of
         Inr h \<Rightarrow> length h = 16 \<and> set h \<subseteq> set ''0123456789abcdef''
       | Inl e \<Rightarrow> e = UnicodeEncodeError)
   \<and> gen_id (points ''claude'') (points ''x'') = Inr ''db5c72b9eacb5a8c''
   \<and> gen_id (points ''chatgpt'') (points ''x'') = Inr ''ab855a864005ec9f''
   \<and> gen_id (points ''claude'') (points ''x'') \<noteq> gen_id (points ''chatgpt'') (points ''x'')
   \<and> gen_id [99, 97, 102, 233] [8364, 128512] = Inr ''0822cce73c455700''
   \<and> gen_id (points ''claude-code'')
        (points ''/home/user/.claude/projects/-home-user-proj/0123abcd.jsonl'')
      = Inr ''b264bd8be015adca''
   \<and> encode [127] = Inr [127] \<and> encode [128] = Inr [194, 128]
   \<and> encode [2047] = Inr [223, 191] \<and> encode [2048] = Inr [224, 160, 128]
   \<and> encode [55295] = Inr [237, 159, 191] \<and> encode [57344] = Inr [238, 128, 128]
   \<and> encode [65535] = Inr [239, 191, 191] \<and> encode [65536] = Inr [240, 144, 128, 128]
   \<and> encode [1114111] = Inr [244, 143, 191, 191]
   \<and> hexdigest (sha256 [])
      = ''e3b0c44298fc1c149afbf4c8996fb92427ae41e4649b934ca495991b7852b855''
   \<and> hexdigest (sha256 [97, 98, 99])
      = ''ba7816bf8f01cfea414140de5dae2223b00361a396177a9cb410ff61f20015ad''
   \<and> hexdigest (sha256 (points ''abcdbcdecdefdefgefghfghighijhijkijkljklmklmnlmnomnopnopq''))
      = ''248d6a61d20638b8e5c026930c3e6039a33ce45964ff2167f6ecedd419db06c1''"
proof -
  have shape: "case gen_id s k of
      Inr h \<Rightarrow> length h = 16 \<and> set h \<subseteq> set ''0123456789abcdef''
    | Inl e \<Rightarrow> e = UnicodeEncodeError"
  proof (cases "list_ex is_surrogate (s @ k)")
    case True
    then show ?thesis by (simp add: gen_id_cases)
  next
    case False
    have "set (take 16 (hexdigest st)) \<subseteq> set ''0123456789abcdef''" for st
      using set_take_subset set_hexdigest by fast
    then show ?thesis using False by (simp add: gen_id_cases length_hexdigest)
  qed
  have ids: "gen_id (points ''claude'') (points ''x'') = Inr ''db5c72b9eacb5a8c''"
    "gen_id (points ''chatgpt'') (points ''x'') = Inr ''ab855a864005ec9f''"
    "gen_id (points ''claude-code'')
       (points ''/home/user/.claude/projects/-home-user-proj/0123abcd.jsonl'')
     = Inr ''b264bd8be015adca''"
    by (simp_all only: gen_id_points gen_id_claude_x gen_id_chatgpt_x gen_id_long)
  have differ: "gen_id (points ''claude'') (points ''x'') \<noteq> gen_id (points ''chatgpt'') (points ''x'')"
    unfolding ids by simp
  show ?thesis
    by (intro conjI gen_id_cases shape ids differ gen_id_multibyte utf8_boundaries
        sha256_empty sha256_abc sha256_two_blocks)
qed

text \<open>
  The key of one lone surrogate, code point 55296, which \<^verbatim>\<open>json.loads\<close> returns for its
  escape: \<^verbatim>\<open>gen_id\<close> raises and yields no identifier.
\<close>

theorem gen_id_lone_surrogate:
  "gen_id (points ''claude'') [55296] = Inl UnicodeEncodeError"
  by (simp add: gen_id_cases is_surrogate_def)

section \<open>The canonical rows and the store\<close>

text \<open>
  A row is the \<^verbatim>\<open>dict(id=..., ...)\<close> a normalizer builds, in the column order of
  \<^verbatim>\<open>init_schema\<close>. A column that receives a value of the payload as it is, or the text
  \<^verbatim>\<open>json.dumps\<close> makes of one, holds that JSON value (\<^verbatim>\<open>None\<close> is \<open>JNull\<close>, the literal
  \<^verbatim>\<open>"{}"\<close> is the empty dict); a timestamp column holds a \<^verbatim>\<open>datetime\<close> of type \<open>'ts\<close> or
  \<^verbatim>\<open>None\<close>.
\<close>

record 'ts conv_row =
  conv_id :: string
  conv_source :: string
  conv_title :: json
  conv_created_at :: "'ts option"
  conv_updated_at :: "'ts option"
  conv_model :: json
  conv_cwd :: json
  conv_git_branch :: json
  conv_project_id :: json
  conv_metadata :: json

record 'ts msg_row =
  msg_id :: string
  msg_conversation_id :: string
  msg_role :: json
  msg_content :: string
  msg_thinking :: "string option"
  msg_created_at :: "'ts option"
  msg_model :: json
  msg_metadata :: json

record 'ts tool_row =
  tool_id :: string
  tool_message_id :: string
  tool_name :: json
  tool_input :: json
  tool_output :: json
  tool_status :: string
  tool_duration_ms :: json
  tool_created_at :: "'ts option"

record 'ts attach_row =
  attach_id :: string
  attach_message_id :: string
  attach_filename :: json
  attach_mime_type :: json
  attach_size :: json
  attach_path :: json
  attach_url :: json
  attach_created_at :: "'ts option"

record 'ts artifact_row =
  artifact_id :: string
  artifact_conversation_id :: string
  artifact_type :: json
  artifact_title :: json
  artifact_content :: json
  artifact_language :: json
  artifact_created_at :: "'ts option"
  artifact_version :: json

record 'ts edit_row =
  edit_id :: string
  edit_message_id :: string
  edit_file_path :: json
  edit_type :: string
  edit_content :: json
  edit_created_at :: "'ts option"

text \<open>\<^verbatim>\<open>ParseResult\<close>: six lists, each empty unless given.\<close>

record 'ts parse_result =
  convs :: "'ts conv_row list"
  msgs :: "'ts msg_row list"
  tools :: "'ts tool_row list"
  attachs :: "'ts attach_row list"
  artifacts :: "'ts artifact_row list"
  edits :: "'ts edit_row list"

definition ParseResult :: "'ts parse_result" where
  "ParseResult = \<lparr>convs = [], msgs = [], tools = [], attachs = [], artifacts = [], edits = []\<rparr>"

text \<open>The six tables of \<^verbatim>\<open>init_schema\<close>, each with \<^verbatim>\<open>id VARCHAR PRIMARY KEY\<close>.\<close>

record 'ts db =
  conversations :: "'ts conv_row list"
  messages :: "'ts msg_row list"
  tool_calls :: "'ts tool_row list"
  attachments :: "'ts attach_row list"
  artifacts_tbl :: "'ts artifact_row list"
  file_edits :: "'ts edit_row list"

definition empty_db :: "'ts db" where
  "empty_db = \<lparr>conversations = [], messages = [], tool_calls = [], attachments = [],
               artifacts_tbl = [], file_edits = []\<rparr>"

text \<open>
  \<^verbatim>\<open>INSERT OR REPLACE INTO t VALUES (...)\<close>: the row with the same primary key is replaced
  as a whole; without one the row is added.
\<close>

fun insert_or_replace :: "('r \<Rightarrow> string) \<Rightarrow> 'r \<Rightarrow> 'r list \<Rightarrow> 'r list" where
  "insert_or_replace key r [] = [r]"
| "insert_or_replace key r (x # xs) =
     (if key x = key r then r # xs else x # insert_or_replace key r xs)"

text \<open>\<^verbatim>\<open>for c in rows: conn.execute("INSERT OR REPLACE ...", list(c.values()))\<close>.\<close>

definition insert_all :: "('r \<Rightarrow> string) \<Rightarrow> 'r list \<Rightarrow> 'r list \<Rightarrow> 'r list" where
  "insert_all key rows tbl = fold (insert_or_replace key) rows tbl"

text \<open>
  \<^verbatim>\<open>upsert(conn, r)\<close> returns the counts
  \<^verbatim>\<open>len(r.convs), len(r.msgs), len(r.tools), len(r.attachs), len(r.edits), len(new_convs), len(updated)\<close>;
  the model returns the store as well.
\<close>

record upsert_counts =
  n_convs :: nat
  n_msgs :: nat
  n_tools :: nat
  n_attachs :: nat
  n_edits :: nat
  n_new :: nat
  n_updated :: nat

definition upsert_store :: "'ts db \<Rightarrow> 'ts parse_result \<Rightarrow> 'ts db" where
  "upsert_store d r =
     \<lparr>conversations = insert_all conv_id (convs r) (conversations d),
      messages = insert_all msg_id (msgs r) (messages d),
      tool_calls = insert_all tool_id (tools r) (tool_calls d),
      attachments = insert_all attach_id (attachs r) (attachments d),
      artifacts_tbl = insert_all artifact_id (artifacts r) (artifacts_tbl d),
      file_edits = insert_all edit_id (edits r) (file_edits d)\<rparr>"

definition upsert_stats :: "'ts db \<Rightarrow> 'ts parse_result \<Rightarrow> upsert_counts" where
  "upsert_stats d r =
     (let cids = map conv_id (convs r); mids = map msg_id (msgs r);
          existing = set (filter (\<lambda>i. i \<in> set cids) (map conv_id (conversations d)));
          existing_msgs = set (filter (\<lambda>i. i \<in> set mids) (map msg_id (messages d)));
          new_convs = set cids - existing;
          new_msgs = set mids - existing_msgs;
          updated = set (map msg_conversation_id (filter (\<lambda>m. msg_id m \<in> new_msgs) (msgs r)))
                      - new_convs
      in \<lparr>n_convs = length (convs r), n_msgs = length (msgs r), n_tools = length (tools r),
          n_attachs = length (attachs r), n_edits = length (edits r),
          n_new = card new_convs, n_updated = card updated\<rparr>)"

definition upsert :: "'ts db \<Rightarrow> 'ts parse_result \<Rightarrow> 'ts db \<times> upsert_counts" where
  "upsert d r = (upsert_store d r, upsert_stats d r)"

text \<open>The row counts of the six tables.\<close>

definition row_counts :: "'ts db \<Rightarrow> nat list" where
  "row_counts d =
     [length (conversations d), length (messages d), length (tool_calls d),
      length (attachments d), length (artifacts_tbl d), length (file_edits d)]"

text \<open>The primary-key constraint: no two rows of a table share an id.\<close>

definition db_ok :: "'ts db \<Rightarrow> bool" where
  "db_ok d =
     (distinct (map conv_id (conversations d)) \<and> distinct (map msg_id (messages d))
      \<and> distinct (map tool_id (tool_calls d)) \<and> distinct (map attach_id (attachments d))
      \<and> distinct (map artifact_id (artifacts_tbl d)) \<and> distinct (map edit_id (file_edits d)))"

section \<open>Properties of the merge\<close>

lemma keys_insert_or_replace:
  "key ` set (insert_or_replace key r t) = insert (key r) (key ` set t)"
  by (induction t) auto

lemma insert_or_replace_commute:
  "key a \<noteq> key b \<Longrightarrow> key a \<in> key ` set t \<or> key b \<in> key ` set t \<Longrightarrow>
   insert_or_replace key a (insert_or_replace key b t)
     = insert_or_replace key b (insert_or_replace key a t)"
  by (induction t) auto

lemma insert_or_replace_absorb:
  "key r = key r' \<Longrightarrow>
   insert_or_replace key r (insert_or_replace key r' t) = insert_or_replace key r t"
  by (induction t) auto

lemma insert_or_replace_append_present:
  "key r \<in> key ` set t \<Longrightarrow>
   insert_or_replace key r (t @ ys) = insert_or_replace key r t @ ys"
  by (induction t) auto

lemma insert_or_replace_append_absent:
  "key r \<notin> key ` set t \<Longrightarrow>
   insert_or_replace key r (t @ ys) = t @ insert_or_replace key r ys"
  by (induction t) auto

lemma insert_all_Nil: "insert_all key [] t = t"
  by (simp add: insert_all_def)

lemma insert_all_Cons:
  "insert_all key (r # rows) t = insert_all key rows (insert_or_replace key r t)"
  by (simp add: insert_all_def)

lemma insert_all_snoc:
  "insert_all key (rows @ [r]) t = insert_or_replace key r (insert_all key rows t)"
  by (simp add: insert_all_def)

lemma keys_insert_all:
  "key ` set (insert_all key rows t) = key ` set rows \<union> key ` set t"
  by (induction rows arbitrary: t) (auto simp: insert_all_Nil insert_all_Cons keys_insert_or_replace)

lemma insert_all_append_present:
  "key ` set rows \<subseteq> key ` set t \<Longrightarrow>
   insert_all key rows (t @ ys) = insert_all key rows t @ ys"
proof (induction rows arbitrary: t)
  case Nil
  then show ?case by (simp add: insert_all_Nil)
next
  case (Cons r rows)
  have "key ` set rows \<subseteq> key ` set (insert_or_replace key r t)"
    using Cons.prems by (auto simp: keys_insert_or_replace)
  with Cons show ?case
    by (simp add: insert_all_Cons insert_or_replace_append_present)
qed

lemma insert_all_absorb:
  "key ` set rows \<subseteq> key ` set t \<Longrightarrow> key r \<in> key ` set t \<Longrightarrow> key r' = key r \<Longrightarrow>
   insert_or_replace key r (insert_all key rows (insert_or_replace key r' t))
     = insert_or_replace key r (insert_all key rows t)"
proof (induction rows arbitrary: t)
  case Nil
  then show ?case by (simp add: insert_all_Nil insert_or_replace_absorb)
next
  case (Cons x rows)
  show ?case
  proof (cases "key x = key r")
    case True
    then have "insert_or_replace key x (insert_or_replace key r' t) = insert_or_replace key x t"
      using Cons.prems by (simp add: insert_or_replace_absorb)
    then show ?thesis by (simp add: insert_all_Cons)
  next
    case False
    then have sw: "insert_or_replace key x (insert_or_replace key r' t)
                   = insert_or_replace key r' (insert_or_replace key x t)"
      using Cons.prems by (intro insert_or_replace_commute) auto
    have "key ` set rows \<subseteq> key ` set (insert_or_replace key x t)"
      and "key r \<in> key ` set (insert_or_replace key x t)"
      using Cons.prems by (auto simp: keys_insert_or_replace)
    then show ?thesis
      using Cons.IH [of "insert_or_replace key x t"] Cons.prems(3)
      by (simp add: insert_all_Cons sw)
  qed
qed

lemma insert_all_idem:
  "insert_all key rows (insert_all key rows t) = insert_all key rows t"
proof (induction rows arbitrary: t rule: rev_induct)
  case Nil
  then show ?case by (simp add: insert_all_Nil)
next
  case (snoc x xs)
  define T where "T = insert_all key xs t"
  have keys: "key ` set xs \<subseteq> key ` set T"
    by (simp add: T_def keys_insert_all)
  have fixp: "insert_all key xs T = T"
    by (simp add: T_def snoc.IH)
  show ?case
  proof (cases "key x \<in> key ` set T")
    case True
    then have "insert_or_replace key x (insert_all key xs (insert_or_replace key x T))
               = insert_or_replace key x (insert_all key xs T)"
      using keys by (intro insert_all_absorb) auto
    then show ?thesis
      by (simp add: insert_all_snoc fixp flip: T_def)
  next
    case False
    then have app: "insert_or_replace key x T = T @ [x]"
      using insert_or_replace_append_absent [of key x T "[]"] by simp
    have "insert_all key xs (T @ [x]) = T @ [x]"
      using keys by (simp add: insert_all_append_present fixp)
    moreover have "insert_or_replace key x (T @ [x]) = T @ [x]"
      using False by (simp add: insert_or_replace_append_absent)
    ultimately show ?thesis
      by (simp add: insert_all_snoc app flip: T_def)
  qed
qed

text \<open>
  C2. For every ParseResult and every state of the store, merging the same batch a second
  time changes no stored row, and the row counts of the six tables stay what they were
  after the first merge.
\<close>

theorem upsert_idempotent:
  "fst (upsert (fst (upsert d r)) r) = fst (upsert d r)
   \<and> row_counts (fst (upsert (fst (upsert d r)) r)) = row_counts (fst (upsert d r))"
  by (simp add: upsert_def upsert_store_def insert_all_idem)

lemma set_insert_or_replace:
  "distinct (map key t) \<Longrightarrow>
   set (insert_or_replace key r t) = insert r {x \<in> set t. key x \<noteq> key r}"
  by (induction t) (auto simp: rev_image_eqI)

lemma distinct_insert_or_replace:
  "distinct (map key t) \<Longrightarrow> distinct (map key (insert_or_replace key r t))"
proof (induction t)
  case Nil
  then show ?case by simp
next
  case (Cons x xs)
  then show ?case
    using keys_insert_or_replace [of key r xs] by (auto simp: rev_image_eqI)
qed

lemma distinct_insert_all:
  "distinct (map key t) \<Longrightarrow> distinct (map key (insert_all key rows t))"
  by (induction rows arbitrary: t) (simp_all add: insert_all_Nil insert_all_Cons distinct_insert_or_replace)

lemma set_insert_all:
  "distinct (map key t) \<Longrightarrow> distinct (map key rows) \<Longrightarrow>
   set (insert_all key rows t) = set rows \<union> {x \<in> set t. key x \<notin> key ` set rows}"
proof (induction rows arbitrary: t)
  case Nil
  then show ?case by (simp add: insert_all_Nil)
next
  case (Cons r rows)
  have "set (insert_all key rows (insert_or_replace key r t))
        = set rows \<union> {x \<in> set (insert_or_replace key r t). key x \<notin> key ` set rows}"
    using Cons.prems by (intro Cons.IH) (simp_all add: distinct_insert_or_replace)
  also have "\<dots> = set (r # rows) \<union> {x \<in> set t. key x \<notin> key ` set (r # rows)}"
    using Cons.prems by (auto simp: set_insert_or_replace)
  finally show ?case by (simp add: insert_all_Cons)
qed

lemma distinct_rows: "distinct (map key t) \<Longrightarrow> distinct t"
  by (rule distinct_map [THEN iffD1, THEN conjunct1])

lemma length_filter_card:
  "distinct t \<Longrightarrow> length (filter P t) = card {x \<in> set t. P x}"
  by (metis distinct_card distinct_filter set_filter)

lemma db_ok_upsert: "db_ok d \<Longrightarrow> db_ok (fst (upsert d r))"
  by (simp add: db_ok_def upsert_def upsert_store_def distinct_insert_all)

text \<open>
  C4. A conversation merged with its first 3 messages and merged again, under the same
  conversation id, with all 6 (pairwise distinct message ids, the first 3 as before) is in
  the store as exactly 1 conversation row with exactly 6 message rows, and no table holds
  an id twice. The store before may hold anything else that respects the primary keys and
  has no message of this conversation.
\<close>

theorem continuation_no_duplicates:
  assumes ok: "db_ok d"
    and fresh: "\<forall>m \<in> set (messages d). msg_conversation_id m \<noteq> cid"
    and c1: "conv_id c1 = cid" and c2: "conv_id c2 = cid"
    and len: "length ms = 6"
    and dist: "distinct (map msg_id ms)"
    and own: "\<forall>m \<in> set ms. msg_conversation_id m = cid"
    and d2: "d2 = fst (upsert (fst (upsert d (ParseResult\<lparr>convs := [c1], msgs := take 3 ms\<rparr>)))
                        (ParseResult\<lparr>convs := [c2], msgs := ms\<rparr>))"
  shows "length (filter (\<lambda>x. conv_id x = cid) (conversations d2)) = 1
         \<and> length (filter (\<lambda>m. msg_conversation_id m = cid) (messages d2)) = 6
         \<and> db_ok d2"
proof -
  let ?d1 = "fst (upsert d (ParseResult\<lparr>convs := [c1], msgs := take 3 ms\<rparr>))"
  have ok1: "db_ok ?d1" using ok by (rule db_ok_upsert)
  have ok2: "db_ok d2" unfolding d2 using ok1 by (rule db_ok_upsert)
  have dc: "distinct (map conv_id (conversations d))" and dm: "distinct (map msg_id (messages d))"
    using ok by (simp_all add: db_ok_def)
  have dm3: "distinct (map msg_id (take 3 ms))"
    using dist by (simp add: take_map [symmetric])
  \<comment> \<open>conversations\<close>
  have convs2: "conversations d2
      = insert_or_replace conv_id c2 (insert_or_replace conv_id c1 (conversations d))"
    by (simp add: d2 upsert_def upsert_store_def ParseResult_def insert_all_Cons insert_all_Nil)
  have dc1: "distinct (map conv_id (insert_or_replace conv_id c1 (conversations d)))"
    using dc by (rule distinct_insert_or_replace)
  have "{x \<in> set (conversations d2). conv_id x = cid} = {c2}"
    unfolding convs2 using c1 c2 by (auto simp: set_insert_or_replace [OF dc1])
  moreover have "distinct (conversations d2)"
    using ok2 by (auto simp: db_ok_def intro: distinct_rows)
  ultimately have A: "length (filter (\<lambda>x. conv_id x = cid) (conversations d2)) = 1"
    by (simp add: length_filter_card)
  \<comment> \<open>messages\<close>
  have msgs2: "messages d2 = insert_all msg_id ms (insert_all msg_id (take 3 ms) (messages d))"
    by (simp add: d2 upsert_def upsert_store_def ParseResult_def)
  have dm1: "distinct (map msg_id (insert_all msg_id (take 3 ms) (messages d)))"
    using dm by (rule distinct_insert_all)
  have s1: "set (insert_all msg_id (take 3 ms) (messages d))
            = set (take 3 ms) \<union> {x \<in> set (messages d). msg_id x \<notin> msg_id ` set (take 3 ms)}"
    using dm dm3 by (rule set_insert_all)
  have s2: "set (messages d2)
            = set ms \<union> {x \<in> set (insert_all msg_id (take 3 ms) (messages d)). msg_id x \<notin> msg_id ` set ms}"
    unfolding msgs2 using dm1 dist by (rule set_insert_all)
  have "{x \<in> set (messages d2). msg_conversation_id x = cid} = set ms"
    unfolding s2 s1 using own fresh by (auto dest: in_set_takeD)
  moreover have "distinct (messages d2)"
    using ok2 by (auto simp: db_ok_def intro: distinct_rows)
  moreover have "card (set ms) = 6"
    using dist len by (metis distinct_card distinct_rows)
  ultimately have B: "length (filter (\<lambda>m. msg_conversation_id m = cid) (messages d2)) = 6"
    by (simp add: length_filter_card)
  from A B ok2 show ?thesis by simp
qed

text \<open>
  The repository's test of the continuation: the session \<^verbatim>\<open>/path/to/session.jsonl\<close> with
  the ids \<^verbatim>\<open>gen_id8("claude-code", f"{cid}:{i}")\<close>.
\<close>

definition session_cid :: string where
  "session_cid = gen_id8 ''claude-code'' ''/path/to/session.jsonl''"

definition session_conv :: "unit conv_row" where
  "session_conv =
     \<lparr>conv_id = session_cid, conv_source = ''claude-code'', conv_title = JStr ''Session'',
      conv_created_at = None, conv_updated_at = None, conv_model = JStr ''claude'',
      conv_cwd = JStr ''/test'', conv_git_branch = JStr ''main'', conv_project_id = JNull,
      conv_metadata = JDict []\<rparr>"

definition session_msg :: "nat \<Rightarrow> unit msg_row" where
  "session_msg i =
     \<lparr>msg_id = gen_id8 ''claude-code'' (session_cid @ '':'' @ str_nat i),
      msg_conversation_id = session_cid,
      msg_role = JStr (if i mod 2 = 0 then ''user'' else ''assistant''),
      msg_content = ''Message '' @ str_nat i, msg_thinking = None, msg_created_at = None,
      msg_model = JNull, msg_metadata = JDict []\<rparr>"

lemma session_cid_eq: "session_cid = ''7f0746fa686def45''"
  unfolding session_cid_def
  by (simp add: sha_simps)

lemma session_msg_id_0: "gen_id8 ''claude-code'' ''7f0746fa686def45:0'' = ''94d9d8514bb1618b''"
  by (simp add: sha_simps)
lemma session_msg_id_1: "gen_id8 ''claude-code'' ''7f0746fa686def45:1'' = ''3d2f5426deff9861''"
  by (simp add: sha_simps)
lemma session_msg_id_2: "gen_id8 ''claude-code'' ''7f0746fa686def45:2'' = ''6ba53e3639dc41f0''"
  by (simp add: sha_simps)
lemma session_msg_id_3: "gen_id8 ''claude-code'' ''7f0746fa686def45:3'' = ''b8db19559385a396''"
  by (simp add: sha_simps)
lemma session_msg_id_4: "gen_id8 ''claude-code'' ''7f0746fa686def45:4'' = ''6181fb1fe8c2e3c0''"
  by (simp add: sha_simps)
lemma session_msg_id_5: "gen_id8 ''claude-code'' ''7f0746fa686def45:5'' = ''9669572b0ffa9110''"
  by (simp add: sha_simps)

lemmas session_ids = session_cid_eq session_msg_id_0 session_msg_id_1 session_msg_id_2
  session_msg_id_3 session_msg_id_4 session_msg_id_5

lemma session_msg_ids:
  "map msg_id (map session_msg [0, 1, 2, 3, 4, 5])
     = [''94d9d8514bb1618b'', ''3d2f5426deff9861'', ''6ba53e3639dc41f0'',
        ''b8db19559385a396'', ''6181fb1fe8c2e3c0'', ''9669572b0ffa9110'']"
  by (simp add: session_msg_def session_ids str_nat_digit)

theorem continuation_no_duplicates_witness:
  "length (filter (\<lambda>x. conv_id x = session_cid)
      (conversations (fst (upsert (fst (upsert empty_db
          (ParseResult\<lparr>convs := [session_conv], msgs := take 3 (map session_msg [0, 1, 2, 3, 4, 5])\<rparr>)))
          (ParseResult\<lparr>convs := [session_conv], msgs := map session_msg [0, 1, 2, 3, 4, 5]\<rparr>))))) = 1
   \<and> length (filter (\<lambda>m. msg_conversation_id m = session_cid)
      (messages (fst (upsert (fst (upsert empty_db
          (ParseResult\<lparr>convs := [session_conv], msgs := take 3 (map session_msg [0, 1, 2, 3, 4, 5])\<rparr>)))
          (ParseResult\<lparr>convs := [session_conv], msgs := map session_msg [0, 1, 2, 3, 4, 5]\<rparr>))))) = 6
   \<and> db_ok (fst (upsert (fst (upsert empty_db
          (ParseResult\<lparr>convs := [session_conv], msgs := take 3 (map session_msg [0, 1, 2, 3, 4, 5])\<rparr>)))
          (ParseResult\<lparr>convs := [session_conv], msgs := map session_msg [0, 1, 2, 3, 4, 5]\<rparr>)))"
proof -
  have ok: "db_ok (empty_db :: unit db)"
    by (simp add: db_ok_def empty_db_def)
  have fresh: "\<forall>m \<in> set (messages (empty_db :: unit db)). msg_conversation_id m \<noteq> session_cid"
    by (simp add: empty_db_def)
  have c: "conv_id session_conv = session_cid"
    by (simp add: session_conv_def)
  have len: "length (map session_msg [0, 1, 2, 3, 4, 5]) = 6"
    by simp
  have dist: "distinct (map msg_id (map session_msg [0, 1, 2, 3, 4, 5]))"
    unfolding session_msg_ids by simp
  have own: "\<forall>m \<in> set (map session_msg [0, 1, 2, 3, 4, 5]). msg_conversation_id m = session_cid"
    by (simp add: session_msg_def)
  show ?thesis
    using continuation_no_duplicates [OF ok fresh c c len dist own refl] by simp
qed

section \<open>Python operations on payload values that may fail\<close>

text \<open>
  The normalizers apply \<^verbatim>\<open>e[k]\<close>, \<^verbatim>\<open>e.get(k, d)\<close>, \<^verbatim>\<open>k in e\<close> and \<^verbatim>\<open>for x in e\<close> to values of the
  payload without checking their type first; on a value of another type Python raises.
\<close>

fun contains :: "string \<Rightarrow> string \<Rightarrow> bool" where
  "contains k [] = (k = [])"
| "contains k (c # cs) = (take (length k) (c # cs) = k \<or> contains k cs)"

definition py_in :: "string \<Rightarrow> json \<Rightarrow> py_error + bool" where
  "py_in k e =
     (case e of
        JDict d \<Rightarrow> Inr (has_key d k)
      | JStr s \<Rightarrow> Inr (contains k s)
      | JList xs \<Rightarrow> Inr (JStr k \<in> set xs)
      | _ \<Rightarrow> Inl TypeError)"

definition subscript :: "json \<Rightarrow> string \<Rightarrow> py_error + json" where
  "subscript e k =
     (case e of
        JDict d \<Rightarrow> (case map_of d k of None \<Rightarrow> Inl KeyError | Some v \<Rightarrow> Inr v)
      | _ \<Rightarrow> Inl TypeError)"

definition py_get :: "json \<Rightarrow> string \<Rightarrow> json \<Rightarrow> py_error + json" where
  "py_get e k dflt =
     (case e of JDict d \<Rightarrow> Inr (dget d k dflt) | _ \<Rightarrow> Inl AttributeError)"

definition py_iter :: "json \<Rightarrow> py_error + json list" where
  "py_iter e =
     (case e of
        JList xs \<Rightarrow> Inr xs
      | JStr s \<Rightarrow> Inr (map (\<lambda>c. JStr [c]) s)
      | JDict d \<Rightarrow> Inr (map (\<lambda>kv. JStr (fst kv)) d)
      | _ \<Rightarrow> Inl TypeError)"

text \<open>
  A list comprehension \<^verbatim>\<open>[f(x) for x in xs if p(x)]\<close> runs element by element and stops at
  the first exception; the element function gives \<open>None\<close> for an element the condition
  rejects.
\<close>

fun comp_err :: "('a \<Rightarrow> py_error + 'b option) \<Rightarrow> 'a list \<Rightarrow> py_error + 'b list" where
  "comp_err f [] = Inr []"
| "comp_err f (x # xs) =
     and_then (f x) (\<lambda>y.
     and_then (comp_err f xs) (\<lambda>ys.
       Inr (case y of None \<Rightarrow> ys | Some v \<Rightarrow> v # ys)))"

fun map_err :: "('a \<Rightarrow> py_error + 'b) \<Rightarrow> 'a list \<Rightarrow> py_error + 'b list" where
  "map_err f [] = Inr []"
| "map_err f (x # xs) =
     and_then (f x) (\<lambda>y. and_then (map_err f xs) (\<lambda>ys. Inr (y # ys)))"

text \<open>\<^verbatim>\<open>s.replace(old, new)\<close> for a non-empty \<^verbatim>\<open>old\<close>, and \<^verbatim>\<open>s.lower()\<close> below code point 256.\<close>

function replace :: "string \<Rightarrow> string \<Rightarrow> string \<Rightarrow> string" where
  "replace old new s =
     (if s = [] \<or> old = [] then s
      else if take (length old) s = old then new @ replace old new (drop (length old) s)
      else hd s # replace old new (tl s))"
  by pat_completeness auto
termination
  by (relation "measure (\<lambda>(old, new, s). length s)") (auto simp: neq_Nil_conv)

declare replace.simps [simp del]

definition lower_char :: "char \<Rightarrow> char" where
  "lower_char c =
     (let n = (of_char c :: nat)
      in if (65 \<le> n \<and> n \<le> 90) \<or> (192 \<le> n \<and> n \<le> 222 \<and> n \<noteq> 215)
         then char_of (n + 32) else c)"

definition lower :: "string \<Rightarrow> string" where
  "lower s = map lower_char s"

section \<open>Library functions\<close>

text \<open>
  What the normalizers call in the standard library is a parameter of the model:
  \<^verbatim>\<open>datetime.fromisoformat\<close> (\<open>None\<close> where it raises \<^verbatim>\<open>ValueError\<close>),
  \<^verbatim>\<open>datetime.fromtimestamp(float(t))\<close> (\<open>None\<close> where either raises), \<^verbatim>\<open>json.loads\<close>
  (\<open>None\<close> where it raises \<^verbatim>\<open>JSONDecodeError\<close>, a \<^verbatim>\<open>ValueError\<close>), \<^verbatim>\<open>re.search(pat, s)\<close>
  (group 1 of the match, \<open>None\<close> without a match) and \<^verbatim>\<open>str(v)\<close> of a value that is not
  a \<^verbatim>\<open>str\<close>. Every theorem holds for all of them.
\<close>

record 'ts pylib =
  fromisoformat :: "string \<Rightarrow> 'ts option"
  fromtimestamp :: "json \<Rightarrow> 'ts option"
  json_loads :: "string \<Rightarrow> json option"
  re_search :: "string \<Rightarrow> string \<Rightarrow> string option"
  py_repr :: "json \<Rightarrow> string"


text \<open>
  \<^verbatim>\<open>ts_from_iso(t) = datetime.fromisoformat(t.replace("Z", "+00:00")) if t else None\<close> and
  \<^verbatim>\<open>ts_from_epoch\<close>, which catches every exception.
\<close>

definition ts_from_iso :: "'ts pylib \<Rightarrow> json \<Rightarrow> py_error + 'ts option" where
  "ts_from_iso L t =
     (if \<not> truthy t then Inr None
      else case t of
             JStr s \<Rightarrow> (case fromisoformat L (replace ''Z'' ''+00:00'' s) of
                          None \<Rightarrow> Inl ValueError
                        | Some d \<Rightarrow> Inr (Some d))
           | _ \<Rightarrow> Inl AttributeError)"


text \<open>
  A \<^verbatim>\<open>Path\<close>, by what the normalizers read of it: \<^verbatim>\<open>str(p)\<close>, \<^verbatim>\<open>p.parent.name\<close> and
  \<^verbatim>\<open>p.stem\<close>.
\<close>

record path =
  p_str :: string
  p_parent_name :: string
  p_stem :: string

section \<open>The session-log normalizers\<close>

text \<open>
  A session file is given by its path and by the list of events \<^verbatim>\<open>load_jsonl\<close> reads from
  it. \<^verbatim>\<open>parse_claude_code_session\<close> and \<^verbatim>\<open>parse_codex_session\<close> return a dict with
  \<^verbatim>\<open>conv\<close>, \<^verbatim>\<open>msgs\<close>, \<^verbatim>\<open>tools\<close> and \<^verbatim>\<open>edits\<close>, or \<^verbatim>\<open>None\<close>.
\<close>

record 'ts session =
  s_conv :: "'ts conv_row"
  s_msgs :: "'ts msg_row list"
  s_tools :: "'ts tool_row list"
  s_edits :: "'ts edit_row list"

text \<open>\<^verbatim>\<open>timestamps = [ts_from_iso(e["timestamp"]) for e in events if "timestamp" in e]\<close>\<close>

definition timestamps_of :: "'ts pylib \<Rightarrow> json list \<Rightarrow> py_error + 'ts option list" where
  "timestamps_of L events =
     comp_err (\<lambda>e.
       and_then (py_in ''timestamp'' e) (\<lambda>b.
         if b then and_then (subscript e ''timestamp'') (\<lambda>t.
                   and_then (ts_from_iso L t) (\<lambda>d. Inr (Some d)))
         else Inr None)) events"

definition first_ts :: "'ts option list \<Rightarrow> 'ts option" where
  "first_ts timestamps = (case timestamps of [] \<Rightarrow> None | t # ts \<Rightarrow> t)"

definition last_ts :: "'ts option list \<Rightarrow> 'ts option" where
  "last_ts timestamps = (if timestamps = [] then None else last timestamps)"

definition ts_at :: "'ts option list \<Rightarrow> nat \<Rightarrow> 'ts option" where
  "ts_at timestamps i = (if i < length timestamps then timestamps ! i else None)"

subsection \<open>Claude Code sessions\<close>

definition cc_src :: string where
  "cc_src = ''claude-code''"

text \<open>\<^verbatim>\<open>system = next((e for e in events if e.get("type") == "system"), {})\<close>\<close>

fun find_system :: "json list \<Rightarrow> py_error + pydict" where
  "find_system [] = Inr []"
| "find_system (e # es) =
     (case e of
        JDict d \<Rightarrow> if dget d ''type'' JNull = JStr ''system'' then Inr d else find_system es
      | _ \<Rightarrow> Inl AttributeError)"

text \<open>\<^verbatim>\<open>msg_events = [(i, e) for i, e in enumerate(events) if "message" in e]\<close>\<close>

definition msg_events :: "json list \<Rightarrow> py_error + (nat \<times> json) list" where
  "msg_events events =
     comp_err (\<lambda>ie. and_then (py_in ''message'' (snd ie)) (\<lambda>b. Inr (if b then Some ie else None)))
       (List.enumerate 0 events)"

text \<open>The text the message filter looks at: \<^verbatim>\<open>extract_content(e["message"].get("content", ""))["text"]\<close>.\<close>

definition msg_text :: "json \<Rightarrow> py_error + string" where
  "msg_text e =
     and_then (subscript e ''message'') (\<lambda>m.
     and_then (py_get m ''content'' (JStr [])) (\<lambda>cont.
     and_then (extract_content cont) (\<lambda>c. Inr (c_text c))))"

definition msg_key :: "string \<Rightarrow> nat \<Rightarrow> string" where
  "msg_key cid idx = cid @ '':'' @ str_nat idx"

definition make_msg :: "'ts pylib \<Rightarrow> string \<Rightarrow> nat \<Rightarrow> json \<Rightarrow> py_error + 'ts msg_row" where
  "make_msg L cid idx e =
     and_then (subscript e ''message'') (\<lambda>m.
     and_then (py_get m ''text'' (JStr [])) (\<lambda>t0.
     and_then (py_get m ''content'' t0) (\<lambda>cont.
     and_then (extract_content cont) (\<lambda>c.
     and_then (subscript e ''type'') (\<lambda>role.
     and_then (py_get e ''timestamp'' JNull) (\<lambda>t.
     and_then (ts_from_iso L t) (\<lambda>ts.
       Inr \<lparr>msg_id = gen_id8 cc_src (msg_key cid idx), msg_conversation_id = cid,
            msg_role = role, msg_content = c_text c, msg_thinking = c_thinking c,
            msg_created_at = ts,
            msg_model = (if role = JStr ''assistant'' then JStr ''claude'' else JNull),
            msg_metadata = JDict []\<rparr>)))))))"

text \<open>The content and the timestamp \<^verbatim>\<open>make_tools\<close> and \<^verbatim>\<open>make_edits\<close> both start from.\<close>

definition tools_and_ts :: "'ts pylib \<Rightarrow> json \<Rightarrow> py_error + (content \<times> 'ts option)" where
  "tools_and_ts L e =
     and_then (subscript e ''message'') (\<lambda>m.
     and_then (py_get m ''content'' (JList [])) (\<lambda>cont.
     and_then (extract_content cont) (\<lambda>c.
     and_then (py_get e ''timestamp'' JNull) (\<lambda>t.
     and_then (ts_from_iso L t) (\<lambda>ts. Inr (c, ts))))))"

definition tool_row_of :: "string \<Rightarrow> nat \<Rightarrow> 'ts option \<Rightarrow> nat \<times> pydict \<Rightarrow> 'ts tool_row" where
  "tool_row_of cid idx ts jt =
     (let j = fst jt; t = snd jt in
      \<lparr>tool_id = gen_id8 cc_src (''tool:'' @ msg_key cid idx @ '':'' @ str_nat j),
       tool_message_id = gen_id8 cc_src (msg_key cid idx),
       tool_name = dget t ''name'' (dget t ''id'' JNull),
       tool_input = dget t ''input'' (JDict []),
       tool_output = (if has_key t ''output'' then dget t ''output'' (JStr []) else JDict []),
       tool_status = (if has_key t ''output'' then ''complete'' else ''pending''),
       tool_duration_ms = JNull, tool_created_at = ts\<rparr>)"

definition make_tools :: "'ts pylib \<Rightarrow> string \<Rightarrow> nat \<Rightarrow> json \<Rightarrow> py_error + 'ts tool_row list" where
  "make_tools L cid idx e =
     and_then (tools_and_ts L e) (\<lambda>cts.
       Inr (map (tool_row_of cid idx (snd cts)) (List.enumerate 0 (c_tools (fst cts)))))"

text \<open>
  One element of the comprehension of \<^verbatim>\<open>make_edits\<close>: the condition
  \<^verbatim>\<open>t.get("name") in ("Write", "Edit", "MultiEdit") and t.get("input", {}).get("file_path")\<close>,
  then the row with \<^verbatim>\<open>file_path=t["input"]["file_path"]\<close>, \<^verbatim>\<open>edit_type=t["name"].lower()\<close>
  and \<^verbatim>\<open>content=t["input"].get("content") or t["input"].get("new_string", "")\<close>.
\<close>

definition edit_item ::
  "string \<Rightarrow> nat \<Rightarrow> 'ts option \<Rightarrow> nat \<times> pydict \<Rightarrow> py_error + 'ts edit_row option" where
  "edit_item cid idx ts jt =
     (let j = fst jt; t = snd jt in
      case dget t ''name'' JNull of
        JStr n \<Rightarrow>
          if n = ''Write'' \<or> n = ''Edit'' \<or> n = ''MultiEdit''
          then (case dget t ''input'' (JDict []) of
                  JDict inp \<Rightarrow>
                    if truthy (dget inp ''file_path'' JNull)
                    then Inr (Some
                      \<lparr>edit_id = gen_id8 cc_src (''edit:'' @ msg_key cid idx @ '':'' @ str_nat j),
                       edit_message_id = gen_id8 cc_src (msg_key cid idx),
                       edit_file_path = dget inp ''file_path'' JNull,
                       edit_type = lower n,
                       edit_content = (if truthy (dget inp ''content'' JNull)
                                       then dget inp ''content'' JNull
                                       else dget inp ''new_string'' (JStr [])),
                       edit_created_at = ts\<rparr>)
                    else Inr None
                | _ \<Rightarrow> Inl AttributeError)
          else Inr None
      | _ \<Rightarrow> Inr None)"

definition make_edits :: "'ts pylib \<Rightarrow> string \<Rightarrow> nat \<Rightarrow> json \<Rightarrow> py_error + 'ts edit_row list" where
  "make_edits L cid idx e =
     and_then (tools_and_ts L e) (\<lambda>cts.
       comp_err (edit_item cid idx (snd cts)) (List.enumerate 0 (c_tools (fst cts))))"

text \<open>
  \<^verbatim>\<open>msgs = [make_msg(idx, i, e) for idx, (i, e) in enumerate(msg_events)
     if extract_content(e["message"].get("content", ""))["text"]]\<close>
\<close>

definition cc_msgs ::
  "'ts pylib \<Rightarrow> string \<Rightarrow> (nat \<times> json) list \<Rightarrow> py_error + 'ts msg_row list" where
  "cc_msgs L cid mes =
     comp_err (\<lambda>x. and_then (msg_text (snd (snd x))) (\<lambda>t.
                 if t \<noteq> [] then and_then (make_msg L cid (fst x) (snd (snd x))) (\<lambda>r. Inr (Some r))
                 else Inr None))
       (List.enumerate 0 mes)"

definition cc_title :: "path \<Rightarrow> string" where
  "cc_title jsonl =
     replace ''-'' ''/'' (replace ''-Users-'' ''~/'' (p_parent_name jsonl))
       @ '' ('' @ take 8 (p_stem jsonl) @ '')''"

definition cc_conv :: "path \<Rightarrow> 'ts option list \<Rightarrow> pydict \<Rightarrow> 'ts conv_row" where
  "cc_conv jsonl timestamps sys =
     \<lparr>conv_id = gen_id8 cc_src (p_str jsonl), conv_source = cc_src,
      conv_title = JStr (cc_title jsonl),
      conv_created_at = first_ts timestamps, conv_updated_at = last_ts timestamps,
      conv_model = JStr ''claude'', conv_cwd = dget sys ''cwd'' JNull,
      conv_git_branch = dget sys ''gitBranch'' JNull, conv_project_id = JNull,
      conv_metadata = JDict [(''session_id'', JStr (p_stem jsonl))]\<rparr>"

definition parse_claude_code_session ::
  "'ts pylib \<Rightarrow> path \<Rightarrow> json list \<Rightarrow> py_error + 'ts session option" where
  "parse_claude_code_session L jsonl events =
     (if events = [] then Inr None
      else
        and_then (timestamps_of L events) (\<lambda>timestamps.
        and_then (find_system events) (\<lambda>sys.
        and_then (msg_events events) (\<lambda>mes.
        and_then (cc_msgs L (gen_id8 cc_src (p_str jsonl)) mes) (\<lambda>ms.
          if ms = [] then Inr None
          else
            and_then (map_err (\<lambda>x. make_tools L (gen_id8 cc_src (p_str jsonl)) (fst x) (snd (snd x)))
                        (List.enumerate 0 mes)) (\<lambda>tls.
            and_then (map_err (\<lambda>x. make_edits L (gen_id8 cc_src (p_str jsonl)) (fst x) (snd (snd x)))
                        (List.enumerate 0 mes)) (\<lambda>eds.
              Inr (Some \<lparr>s_conv = cc_conv jsonl timestamps sys, s_msgs = ms,
                         s_tools = concat tls, s_edits = concat eds\<rparr>))))))))"

text \<open>
  \<^verbatim>\<open>sessions = [s for jsonl in files if (s := parse_claude_code_session(jsonl))]\<close> and the
  \<^verbatim>\<open>ParseResult\<close> made of them.
\<close>

definition result_of_sessions :: "'ts session list \<Rightarrow> 'ts parse_result" where
  "result_of_sessions sessions =
     \<lparr>convs = map s_conv sessions, msgs = concat (map s_msgs sessions),
      tools = concat (map s_tools sessions), attachs = [], artifacts = [],
      edits = concat (map s_edits sessions)\<rparr>"

definition parse_claude_code ::
  "'ts pylib \<Rightarrow> (path \<times> json list) list \<Rightarrow> py_error + 'ts parse_result" where
  "parse_claude_code L files =
     and_then (comp_err (\<lambda>f. parse_claude_code_session L (fst f) (snd f)) files) (\<lambda>sessions.
       Inr (result_of_sessions sessions))"

subsection \<open>Codex sessions\<close>

definition codex_src :: string where
  "codex_src = ''codex''"

text \<open>\<^verbatim>\<open>meta = next((e["payload"] for e in events if e.get("type") == "session_meta"), {})\<close>\<close>

fun find_meta :: "json list \<Rightarrow> py_error + json" where
  "find_meta [] = Inr (JDict [])"
| "find_meta (e # es) =
     and_then (py_get e ''type'' JNull) (\<lambda>t.
       if t = JStr ''session_meta'' then subscript e ''payload'' else find_meta es)"

text \<open>
  \<^verbatim>\<open>items = [(i, e["payload"]) for i, e in enumerate(events)
     if e.get("type") == "response_item" and "payload" in e]\<close>
\<close>

definition items_of :: "json list \<Rightarrow> py_error + (nat \<times> json) list" where
  "items_of events =
     comp_err (\<lambda>ie.
       and_then (py_get (snd ie) ''type'' JNull) (\<lambda>t.
         if t = JStr ''response_item''
         then and_then (py_in ''payload'' (snd ie)) (\<lambda>b.
                if b then and_then (subscript (snd ie) ''payload'') (\<lambda>pl. Inr (Some (fst ie, pl)))
                else Inr None)
         else Inr None))
       (List.enumerate 0 events)"

text \<open>
  \<^verbatim>\<open>extract_msg_text(p) = "\n".join(b["text"] for b in p.get("content", [])
     if isinstance(b, dict) and b.get("type") in ("input_text", "output_text", "text") and b.get("text"))\<close>
\<close>

definition is_text_block :: "pydict \<Rightarrow> bool" where
  "is_text_block b =
     (let ty = dget b ''type'' JNull
      in (ty = JStr ''input_text'' \<or> ty = JStr ''output_text'' \<or> ty = JStr ''text'')
         \<and> truthy (dget b ''text'' JNull))"

definition extract_msg_text :: "json \<Rightarrow> py_error + string" where
  "extract_msg_text p =
     and_then (py_get p ''content'' (JList [])) (\<lambda>v.
     and_then (py_iter v) (\<lambda>bs.
       join_json nl (map (\<lambda>b. dget b ''text'' JNull) (filter is_text_block (dicts_of bs)))))"

text \<open>
  \<^verbatim>\<open>norm_args(p) = json.loads(a) if isinstance((a := p.get("arguments", {})), str) else a\<close>
\<close>

definition norm_args :: "'ts pylib \<Rightarrow> json \<Rightarrow> py_error + json" where
  "norm_args L p =
     and_then (py_get p ''arguments'' (JDict [])) (\<lambda>a.
       case a of
         JStr s \<Rightarrow> (case json_loads L s of None \<Rightarrow> Inl ValueError | Some v \<Rightarrow> Inr v)
       | _ \<Rightarrow> Inr a)"

text \<open>
  One element of the \<^verbatim>\<open>msgs\<close> comprehension: the payloads with
  \<^verbatim>\<open>p.get("type") == "message" and p.get("role") not in ("developer", "system")
     and (text := extract_msg_text(p))\<close>.
\<close>

definition codex_msg_item ::
  "string \<Rightarrow> 'ts option list \<Rightarrow> nat \<times> json \<Rightarrow> py_error + 'ts msg_row option" where
  "codex_msg_item cid timestamps ip =
     (let i = fst ip; p = snd ip in
      and_then (py_get p ''type'' JNull) (\<lambda>ty.
        if ty \<noteq> JStr ''message'' then Inr None
        else and_then (py_get p ''role'' JNull) (\<lambda>role.
          if role = JStr ''developer'' \<or> role = JStr ''system'' then Inr None
          else and_then (extract_msg_text p) (\<lambda>text.
            if text = [] then Inr None
            else and_then (subscript p ''role'') (\<lambda>r.
              Inr (Some
                \<lparr>msg_id = gen_id8 codex_src (msg_key cid i), msg_conversation_id = cid,
                 msg_role = r, msg_content = strip text, msg_thinking = None,
                 msg_created_at = ts_at timestamps i, msg_model = JNull,
                 msg_metadata = JDict []\<rparr>))))))"

text \<open>The two comprehensions of \<^verbatim>\<open>tools\<close>: function calls with arguments, then their outputs.\<close>

definition codex_call_item ::
  "'ts pylib \<Rightarrow> string \<Rightarrow> 'ts option list \<Rightarrow> nat \<times> json \<Rightarrow> py_error + 'ts tool_row option" where
  "codex_call_item L cid timestamps ip =
     (let i = fst ip; p = snd ip in
      and_then (py_get p ''type'' JNull) (\<lambda>ty.
        if ty \<noteq> JStr ''function_call'' then Inr None
        else and_then (norm_args L p) (\<lambda>args.
          if \<not> truthy args then Inr None
          else and_then (subscript p ''name'') (\<lambda>name.
            Inr (Some
              \<lparr>tool_id = gen_id8 codex_src (''tool:'' @ msg_key cid i),
               tool_message_id = gen_id8 codex_src (msg_key cid i),
               tool_name = name, tool_input = args, tool_output = JDict [],
               tool_status = ''pending'', tool_duration_ms = JNull,
               tool_created_at = ts_at timestamps i\<rparr>)))))"

definition codex_output_item ::
  "string \<Rightarrow> 'ts option list \<Rightarrow> nat \<times> json \<Rightarrow> py_error + 'ts tool_row option" where
  "codex_output_item cid timestamps ip =
     (let i = fst ip; p = snd ip in
      and_then (py_get p ''type'' JNull) (\<lambda>ty.
        if ty \<noteq> JStr ''function_call_output'' then Inr None
        else and_then (py_get p ''call_id'' JNull) (\<lambda>call_id.
             and_then (py_get p ''output'' (JStr [])) (\<lambda>out.
               Inr (Some
                 \<lparr>tool_id = gen_id8 codex_src (''toolout:'' @ msg_key cid i),
                  tool_message_id = gen_id8 codex_src (msg_key cid i),
                  tool_name = call_id, tool_input = JDict [], tool_output = out,
                  tool_status = ''complete'', tool_duration_ms = JNull,
                  tool_created_at = ts_at timestamps i\<rparr>)))))"

text \<open>
  The two patterns of the \<^verbatim>\<open>edits\<close> comprehension, a redirect after \<^verbatim>\<open>cat\<close> or \<^verbatim>\<open>echo\<close> and
  the last word of a \<^verbatim>\<open>sed\<close> or \<^verbatim>\<open>awk\<close> command, with the backslash as code point 92.
\<close>

definition pat_redirect :: string where
  "pat_redirect = ''(?:cat|echo).*[>].*?([^'' @ [CHR 0x5C] @ ''s>]+)''"

definition pat_stream :: string where
  "pat_stream = ''(?:sed|awk).*?([^'' @ [CHR 0x5C] @ ''s]+)$''"

text \<open>
  \<^verbatim>\<open>cmd := " ".join(c) if isinstance(c, list) else c\<close>, and the rows of one command: one for
  each pattern that \<^verbatim>\<open>re.search\<close> finds in it, with \<^verbatim>\<open>file_path=m.group(1)\<close>.
\<close>

definition cmd_of :: "json \<Rightarrow> py_error + json" where
  "cmd_of c =
     (case c of
        JList xs \<Rightarrow> and_then (join_json '' '' xs) (\<lambda>s. Inr (JStr s))
      | _ \<Rightarrow> Inr c)"

definition shell_edit :: "'ts pylib \<Rightarrow> string \<Rightarrow> 'ts option list \<Rightarrow> nat \<Rightarrow> string
    \<Rightarrow> nat \<times> string \<Rightarrow> 'ts edit_row option" where
  "shell_edit L cid timestamps i cmd jp =
     (case re_search L (snd jp) cmd of
        None \<Rightarrow> None
      | Some g \<Rightarrow>
          Some \<lparr>edit_id = gen_id8 codex_src (''edit:'' @ msg_key cid i @ '':'' @ str_nat (fst jp)),
                edit_message_id = gen_id8 codex_src (msg_key cid i),
                edit_file_path = JStr g, edit_type = ''shell'', edit_content = JStr cmd,
                edit_created_at = ts_at timestamps i\<rparr>)"

definition shell_edits ::
  "'ts pylib \<Rightarrow> string \<Rightarrow> 'ts option list \<Rightarrow> nat \<Rightarrow> string \<Rightarrow> 'ts edit_row list" where
  "shell_edits L cid timestamps i cmd =
     List.map_filter (shell_edit L cid timestamps i cmd) [(0, pat_redirect), (1, pat_stream)]"

definition codex_edit_item ::
  "'ts pylib \<Rightarrow> string \<Rightarrow> 'ts option list \<Rightarrow> nat \<times> json \<Rightarrow> py_error + 'ts edit_row list" where
  "codex_edit_item L cid timestamps ip =
     (let i = fst ip; p = snd ip in
      and_then (py_get p ''type'' JNull) (\<lambda>ty.
        if ty \<noteq> JStr ''function_call'' then Inr []
        else and_then (py_get p ''name'' JNull) (\<lambda>name.
          if name \<noteq> JStr ''shell'' then Inr []
          else and_then (norm_args L p) (\<lambda>args.
            if \<not> truthy args then Inr []
            else and_then (py_get args ''command'' JNull) (\<lambda>c.
              if \<not> truthy c then Inr []
              else and_then (cmd_of c) (\<lambda>cmd.
                if \<not> truthy cmd then Inr []
                else case cmd of
                       JStr s \<Rightarrow> Inr (shell_edits L cid timestamps i s)
                     | _ \<Rightarrow> Inl TypeError))))))"

definition codex_conv :: "path \<Rightarrow> 'ts option list \<Rightarrow> pydict \<Rightarrow> 'ts conv_row" where
  "codex_conv jsonl timestamps meta =
     \<lparr>conv_id = gen_id8 codex_src (p_str jsonl), conv_source = codex_src,
      conv_title = (if truthy (dget meta ''cwd'' JNull) then dget meta ''cwd'' JNull
                    else JStr (p_stem jsonl)),
      conv_created_at = first_ts timestamps, conv_updated_at = last_ts timestamps,
      conv_model = dget meta ''model_provider'' (JStr ''openai''),
      conv_cwd = dget meta ''cwd'' JNull, conv_git_branch = JNull, conv_project_id = JNull,
      conv_metadata = JDict [(''cli_version'', dget meta ''cli_version'' JNull),
                             (''session_id'', JStr (p_stem jsonl))]\<rparr>"

definition parse_codex_session ::
  "'ts pylib \<Rightarrow> path \<Rightarrow> json list \<Rightarrow> py_error + 'ts session option" where
  "parse_codex_session L jsonl events =
     (if events = [] then Inr None
      else
        and_then (timestamps_of L events) (\<lambda>timestamps.
        and_then (find_meta events) (\<lambda>meta.
        and_then (items_of events) (\<lambda>items.
        and_then (comp_err (codex_msg_item (gen_id8 codex_src (p_str jsonl)) timestamps) items) (\<lambda>ms.
          if ms = [] then Inr None
          else
            and_then (comp_err (codex_call_item L (gen_id8 codex_src (p_str jsonl)) timestamps) items) (\<lambda>calls.
            and_then (comp_err (codex_output_item (gen_id8 codex_src (p_str jsonl)) timestamps) items) (\<lambda>outs.
            and_then (map_err (codex_edit_item L (gen_id8 codex_src (p_str jsonl)) timestamps) items) (\<lambda>eds.
              (case meta of
                JDict md \<Rightarrow>
                  Inr (Some \<lparr>s_conv = codex_conv jsonl timestamps md, s_msgs = ms,
                             s_tools = calls @ outs, s_edits = concat eds\<rparr>)
              | _ \<Rightarrow> Inl AttributeError)))))))))"

text \<open>
  \<^verbatim>\<open>parse_codex\<close>: without the \<^verbatim>\<open>sessions\<close> directory the result is empty.
\<close>

definition parse_codex ::
  "'ts pylib \<Rightarrow> bool \<Rightarrow> (path \<times> json list) list \<Rightarrow> py_error + 'ts parse_result" where
  "parse_codex L sessions_dir_exists files =
     (if \<not> sessions_dir_exists then Inr ParseResult
      else and_then (comp_err (\<lambda>f. parse_codex_session L (fst f) (snd f)) files) (\<lambda>sessions.
             Inr (result_of_sessions sessions)))"

section \<open>Properties of the comprehensions\<close>

lemma and_then_Inr: "and_then m f = Inr y \<longleftrightarrow> (\<exists>x. m = Inr x \<and> f x = Inr y)"
  by (cases m) (simp_all add: and_then_def)

lemma and_then_simps: "and_then (Inr x) f = f x" "and_then (Inl e) f = Inl e"
  by (simp_all add: and_then_def)

lemma comp_err_all_None:
  "comp_err f xs = Inr ys \<Longrightarrow> (\<And>x y. x \<in> set xs \<Longrightarrow> f x = Inr y \<Longrightarrow> y = None) \<Longrightarrow> ys = []"
proof (induction xs arbitrary: ys)
  case Nil
  then show ?case by simp
next
  case (Cons x xs)
  from Cons.prems(1) obtain y zs where fx: "f x = Inr y" and rest: "comp_err f xs = Inr zs"
    and ys: "ys = (case y of None \<Rightarrow> zs | Some v \<Rightarrow> v # zs)"
    by (auto simp: and_then_Inr)
  have "y = None" using Cons.prems(2)[of x y] fx by simp
  moreover have "zs = []" by (rule Cons.IH[OF rest]) (use Cons.prems(2) in auto)
  ultimately show ?case using ys by simp
qed

lemma comp_err_mem:
  "comp_err f xs = Inr ys \<Longrightarrow> x \<in> set xs \<Longrightarrow> f x = Inr (Some v) \<Longrightarrow> v \<in> set ys"
proof (induction xs arbitrary: ys)
  case Nil
  then show ?case by simp
next
  case (Cons a xs)
  from Cons.prems(1) obtain y zs where fa: "f a = Inr y" and rest: "comp_err f xs = Inr zs"
    and ys: "ys = (case y of None \<Rightarrow> zs | Some v \<Rightarrow> v # zs)"
    by (auto simp: and_then_Inr)
  show ?case
  proof (cases "x = a")
    case True
    then show ?thesis using fa Cons.prems(3) ys by simp
  next
    case False
    then have "v \<in> set zs" using Cons.IH[OF rest] Cons.prems by simp
    then show ?thesis using ys by (cases y) simp_all
  qed
qed

lemma comp_err_defined:
  "comp_err f xs = Inr ys \<Longrightarrow> x \<in> set xs \<Longrightarrow> \<exists>y. f x = Inr y"
  by (induction xs arbitrary: ys) (auto simp: and_then_Inr)

lemma comp_err_filter:
  "comp_err f xs = Inr ys \<Longrightarrow> (\<And>x. x \<in> set xs \<Longrightarrow> P x \<Longrightarrow> f x = Inr None)
     \<Longrightarrow> comp_err f (filter (\<lambda>x. \<not> P x) xs) = Inr ys"
proof (induction xs arbitrary: ys)
  case Nil
  then show ?case by simp
next
  case (Cons a xs)
  from Cons.prems(1) obtain y zs where fa: "f a = Inr y" and rest: "comp_err f xs = Inr zs"
    and ys: "ys = (case y of None \<Rightarrow> zs | Some v \<Rightarrow> v # zs)"
    by (auto simp: and_then_Inr)
  have ih: "comp_err f (filter (\<lambda>x. \<not> P x) xs) = Inr zs"
    using Cons.IH[OF rest] Cons.prems(2) by simp
  show ?case
  proof (cases "P a")
    case True
    then have "y = None" using Cons.prems(2)[of a] fa by simp
    then show ?thesis using True ih ys by simp
  next
    case False
    then show ?thesis using fa ih ys by (simp add: and_then_simps)
  qed
qed

lemma map_err_mem:
  "map_err f xs = Inr ys \<Longrightarrow> x \<in> set xs \<Longrightarrow> \<exists>y\<in>set ys. f x = Inr y"
  by (induction xs arbitrary: ys) (auto simp: and_then_Inr)

lemma filter_comp_subset:
  "comp_err (\<lambda>x. and_then (g x) (\<lambda>b. Inr (if b then Some x else None))) xs = Inr ys
     \<Longrightarrow> set ys \<subseteq> set xs"
proof (induction xs arbitrary: ys)
  case Nil
  then show ?case by simp
next
  case (Cons a xs)
  then show ?case by (auto simp: and_then_Inr split: if_splits)
qed

lemma snd_enumerate_mem: "x \<in> set (List.enumerate n xs) \<Longrightarrow> snd x \<in> set xs"
  by (cases x) (auto simp: in_set_enumerate_eq)

lemma enumerate_mem_ex: "y \<in> set xs \<Longrightarrow> \<exists>i. (i, y) \<in> set (List.enumerate n xs)"
proof -
  assume "y \<in> set xs"
  then obtain k where "k < length xs" "xs ! k = y" by (auto simp: in_set_conv_nth)
  then have "(n + k, y) \<in> set (List.enumerate n xs)" by (simp add: in_set_enumerate_eq)
  then show ?thesis ..
qed


section \<open>The empty-session filter\<close>

text \<open>
  A Codex log of one event: a user message whose only text is a blank. And the log of
  Claude Code with the same message.
\<close>

definition blank_codex :: "json list" where
  "blank_codex =
     [JDict [(''type'', JStr ''response_item''),
             (''payload'', JDict [(''type'', JStr ''message''), (''role'', JStr ''user''),
                (''content'', JList [JDict [(''type'', JStr ''input_text''),
                                             (''text'', JStr '' '')]])])]]"

definition blank_claude_code :: "json list" where
  "blank_claude_code =
     [JDict [(''type'', JStr ''user''),
             (''message'', JDict [(''role'', JStr ''user''),
                (''content'', JList [JDict [(''type'', JStr ''text''),
                                             (''text'', JStr '' '')]])])]]"

lemma blank_codex_session:
  "parse_codex_session L p blank_codex
     = Inr (Some \<lparr>s_conv = codex_conv p [] [],
                  s_msgs = [\<lparr>msg_id = gen_id8 codex_src (msg_key (gen_id8 codex_src (p_str p)) 0),
                             msg_conversation_id = gen_id8 codex_src (p_str p),
                             msg_role = JStr ''user'', msg_content = [], msg_thinking = None,
                             msg_created_at = None, msg_model = JNull,
                             msg_metadata = JDict []\<rparr>],
                  s_tools = [], s_edits = []\<rparr>)"
  by (simp add: parse_codex_session_def blank_codex_def timestamps_of_def py_in_def has_key_def
      and_then_def py_get_def dget_def subscript_def items_of_def List.enumerate_eq_zip
      codex_msg_item_def extract_msg_text_def py_iter_def is_text_block_def join_json_def
      codex_call_item_def codex_output_item_def codex_edit_item_def strip_def is_space_simps
      ts_at_def)

lemma blank_claude_code_session: "parse_claude_code_session L p blank_claude_code = Inr None"
  by (simp add: parse_claude_code_session_def blank_claude_code_def timestamps_of_def py_in_def
      has_key_def and_then_def py_get_def dget_def subscript_def msg_events_def
      List.enumerate_eq_zip cc_msgs_def msg_text_def extract_content_def text_item_def
      join_json_def is_thinking_def strip_def is_space_simps)

text \<open>
  C6. A session whose events yield no non-empty message text is meant to be dropped.
  The Codex normalizer tests the text of a message before it trims it and stores the
  trimmed text: the log of one blank message is archived, as one conversation with one
  message whose content is empty. The Claude Code normalizer tests the trimmed text and
  drops the same log.
\<close>

theorem codex_blank_session_archived:
  "parse_codex L True [(p, blank_codex)]
     = Inr \<lparr>convs = [codex_conv p [] []],
            msgs = [\<lparr>msg_id = gen_id8 codex_src (msg_key (gen_id8 codex_src (p_str p)) 0),
                     msg_conversation_id = gen_id8 codex_src (p_str p),
                     msg_role = JStr ''user'', msg_content = [], msg_thinking = None,
                     msg_created_at = None, msg_model = JNull, msg_metadata = JDict []\<rparr>],
            tools = [], attachs = [], artifacts = [], edits = []\<rparr>
   \<and> parse_claude_code L [(p, blank_claude_code)] = Inr ParseResult"
  by (simp add: parse_codex_def parse_claude_code_def blank_codex_session
      blank_claude_code_session and_then_def result_of_sessions_def ParseResult_def)

section \<open>The projection of tool invocations into file edits\<close>

lemma dicts_of_mem: "d \<in> set (dicts_of xs) \<longleftrightarrow> JDict d \<in> set xs"
  by (induction xs rule: dicts_of.induct) auto

lemma tool_uses_mem:
  "tool_uses bs = Inr ts \<Longrightarrow> b \<in> set bs \<Longrightarrow> dget b ''type'' JNull = JStr ''tool_use''
     \<Longrightarrow> \<exists>nm. map_of b ''name'' = Some nm
           \<and> [(''name'', nm), (''input'', dget b ''input'' (JDict [])), (''id'', dget b ''id'' JNull)]
               \<in> set ts"
proof (induction bs arbitrary: ts)
  case Nil
  then show ?case by simp
next
  case (Cons a bs)
  show ?case
  proof (cases "dget a ''type'' JNull = JStr ''tool_use''")
    case False
    then have "tool_uses bs = Inr ts" and "b \<in> set bs" using Cons.prems by auto
    then show ?thesis using Cons.IH Cons.prems(3) by blast
  next
    case True
    then obtain n us where n: "map_of a ''name'' = Some n" and us: "tool_uses bs = Inr us"
      and ts: "ts = [(''name'', n), (''input'', dget a ''input'' (JDict [])),
                     (''id'', dget a ''id'' JNull)] # us"
      using Cons.prems(1) by (auto simp: and_then_Inr split: option.splits)
    show ?thesis
    proof (cases "b = a")
      case True
      then show ?thesis using n ts by simp
    next
      case False
      then have "b \<in> set bs" using Cons.prems(2) by simp
      from Cons.IH[OF us this Cons.prems(3)] show ?thesis using ts by auto
    qed
  qed
qed

lemma make_edits_projects:
  assumes rows: "make_edits L cid idx e = Inr rows"
    and m: "subscript e ''message'' = Inr m"
    and bs: "py_get m ''content'' (JList []) = Inr (JList bs)"
    and b: "JDict b \<in> set bs" "dget b ''type'' JNull = JStr ''tool_use''"
    and n: "dget b ''name'' JNull = JStr n" "n \<in> {''Write'', ''Edit'', ''MultiEdit''}"
    and inp: "dget b ''input'' (JDict []) = JDict inp" "truthy (dget inp ''file_path'' JNull)"
  shows "\<exists>r\<in>set rows. edit_type r = lower n \<and> edit_file_path r = dget inp ''file_path'' JNull
           \<and> edit_content r = (if truthy (dget inp ''content'' JNull) then dget inp ''content'' JNull
                                else dget inp ''new_string'' (JStr []))
           \<and> edit_message_id r = gen_id8 cc_src (msg_key cid idx)"
proof -
  from rows m bs obtain c ts where c: "extract_content (JList bs) = Inr c"
    and comp: "comp_err (edit_item cid idx ts) (List.enumerate 0 (c_tools c)) = Inr rows"
    by (auto simp: make_edits_def tools_and_ts_def and_then_Inr)
  from c obtain tu where tu: "tool_uses (dicts_of bs) = Inr tu" and ct: "c_tools c = tu @ tool_results (dicts_of bs)"
    by (auto simp: extract_content_def Let_def and_then_Inr)
  from tool_uses_mem[OF tu _ b(2)] b(1) obtain nm where nm: "map_of b ''name'' = Some nm"
    and mem: "[(''name'', nm), (''input'', dget b ''input'' (JDict [])), (''id'', dget b ''id'' JNull)] \<in> set tu"
    by (auto simp: dicts_of_mem)
  have nm_eq: "nm = JStr n" using nm n(1) by (simp add: dget_def)
  define t where "t = [(''name'', JStr n), (''input'', JDict inp), (''id'', dget b ''id'' JNull)]"
  have "t \<in> set (c_tools c)" using mem ct nm_eq inp(1) by (simp add: t_def)
  from enumerate_mem_ex[OF this, of 0]
  obtain j where j: "(j, t) \<in> set (List.enumerate 0 (c_tools c))" ..
  have "edit_item cid idx ts (j, t) = Inr (Some
          \<lparr>edit_id = gen_id8 cc_src (''edit:'' @ msg_key cid idx @ '':'' @ str_nat j),
           edit_message_id = gen_id8 cc_src (msg_key cid idx),
           edit_file_path = dget inp ''file_path'' JNull, edit_type = lower n,
           edit_content = (if truthy (dget inp ''content'' JNull) then dget inp ''content'' JNull
                           else dget inp ''new_string'' (JStr [])),
           edit_created_at = ts\<rparr>)"
  proof -
    have tn: "dget t ''name'' JNull = JStr n" and ti: "dget t ''input'' (JDict []) = JDict inp"
      by (simp_all add: t_def dget_def)
    have "n = ''Write'' \<or> n = ''Edit'' \<or> n = ''MultiEdit''" using n(2) by simp
    then show ?thesis using inp(2) by (simp add: edit_item_def Let_def tn ti)
  qed
  from comp_err_mem[OF comp j this] show ?thesis by (rule bexI[rotated]) simp
qed

lemma py_in_of_subscript:
  assumes m: "subscript e k = Inr m"
  shows "py_in k e = Inr True"
proof (cases e)
  case (JDict d)
  then show ?thesis using m
    by (cases "map_of d k") (simp_all add: subscript_def py_in_def has_key_def)
qed (use m in \<open>simp_all add: subscript_def\<close>)

lemma msg_events_mem:
  assumes mes: "msg_events events = Inr mes" and e: "e \<in> set events"
    and m: "subscript e ''message'' = Inr m"
  shows "\<exists>idx i. (idx, (i, e)) \<in> set (List.enumerate 0 mes)"
proof -
  from enumerate_mem_ex[OF e, of 0]
  obtain i where i: "(i, e) \<in> set (List.enumerate 0 events)" ..
  have f: "and_then (py_in ''message'' (snd (i, e))) (\<lambda>b. Inr (if b then Some (i, e) else None))
             = Inr (Some (i, e))"
    using py_in_of_subscript[OF m] by (simp add: and_then_simps)
  have c: "comp_err (\<lambda>ie. and_then (py_in ''message'' (snd ie))
                             (\<lambda>b. Inr (if b then Some ie else None)))
             (List.enumerate 0 events) = Inr mes"
    using mes by (simp only: msg_events_def)
  have "(i, e) \<in> set mes"
    by (rule comp_err_mem[OF c i]) (rule f)
  from enumerate_mem_ex[OF this, of 0]
  obtain idx where "(idx, (i, e)) \<in> set (List.enumerate 0 mes)" ..
  then show ?thesis by (intro exI)
qed

lemma claude_code_edit_projected:
  assumes s: "parse_claude_code_session L p events = Inr (Some s)" and e: "e \<in> set events"
    and m: "subscript e ''message'' = Inr m"
    and bs: "py_get m ''content'' (JList []) = Inr (JList bs)"
    and b: "JDict b \<in> set bs" "dget b ''type'' JNull = JStr ''tool_use''"
    and n: "dget b ''name'' JNull = JStr n" "n \<in> {''Write'', ''Edit'', ''MultiEdit''}"
    and inp: "dget b ''input'' (JDict []) = JDict inp" "truthy (dget inp ''file_path'' JNull)"
  shows "\<exists>r\<in>set (s_edits s). edit_type r = lower n
           \<and> edit_file_path r = dget inp ''file_path'' JNull
           \<and> edit_content r = (if truthy (dget inp ''content'' JNull) then dget inp ''content'' JNull
                                else dget inp ''new_string'' (JStr []))"
proof -
  from s obtain mes eds where mes: "msg_events events = Inr mes"
    and eds: "map_err (\<lambda>x. make_edits L (gen_id8 cc_src (p_str p)) (fst x) (snd (snd x)))
                (List.enumerate 0 mes) = Inr eds"
    and se: "s_edits s = concat eds"
    by (auto simp: parse_claude_code_session_def and_then_Inr split: if_splits)
  from msg_events_mem[OF mes e m] obtain idx i where "(idx, (i, e)) \<in> set (List.enumerate 0 mes)"
    by blast
  from map_err_mem[OF eds this] obtain rows where rows: "rows \<in> set eds"
    and mk: "make_edits L (gen_id8 cc_src (p_str p)) idx e = Inr rows" by auto
  from make_edits_projects[OF mk m bs b n inp] obtain r where r: "r \<in> set rows"
    and props: "edit_type r = lower n" "edit_file_path r = dget inp ''file_path'' JNull"
      "edit_content r = (if truthy (dget inp ''content'' JNull) then dget inp ''content'' JNull
                         else dget inp ''new_string'' (JStr []))"
    by blast
  have "r \<in> set (s_edits s)" using r rows se by auto
  then show ?thesis using props by blast
qed


lemma items_mem:
  assumes items: "items_of events = Inr items" and e: "e \<in> set events"
    and ty: "py_get e ''type'' JNull = Inr (JStr ''response_item'')"
    and pl: "subscript e ''payload'' = Inr pl"
  shows "\<exists>i. (i, pl) \<in> set items"
proof -
  from enumerate_mem_ex[OF e, of 0]
  obtain i where i: "(i, e) \<in> set (List.enumerate 0 events)" ..
  have f: "and_then (py_get (snd (i, e)) ''type'' JNull) (\<lambda>t.
             if t = JStr ''response_item''
             then and_then (py_in ''payload'' (snd (i, e))) (\<lambda>b.
                    if b then and_then (subscript (snd (i, e)) ''payload'')
                                (\<lambda>pl. Inr (Some (fst (i, e), pl)))
                    else Inr None)
             else Inr None) = Inr (Some (i, pl))"
    using ty pl py_in_of_subscript[OF pl] by (simp add: and_then_simps)
  have c: "comp_err (\<lambda>ie.
       and_then (py_get (snd ie) ''type'' JNull) (\<lambda>t.
         if t = JStr ''response_item''
         then and_then (py_in ''payload'' (snd ie)) (\<lambda>b.
                if b then and_then (subscript (snd ie) ''payload'') (\<lambda>pl. Inr (Some (fst ie, pl)))
                else Inr None)
         else Inr None))
       (List.enumerate 0 events) = Inr items"
    using items by (simp only: items_of_def)
  have "(i, pl) \<in> set items"
    by (rule comp_err_mem[OF c i]) (rule f)
  then show ?thesis ..
qed

lemma join_json_Nil: "join_json sep [] = Inr []"
  by (simp add: join_json_def and_then_simps)

lemma cmd_of_truthy:
  assumes "cmd_of c = Inr (JStr cmd)" and "cmd \<noteq> []"
  shows "truthy c"
proof (cases c)
  case (JList xs)
  then show ?thesis using assms by (cases xs) (auto simp: cmd_of_def join_json_Nil and_then_simps)
qed (use assms in \<open>simp_all add: cmd_of_def\<close>)

lemma py_get_truthy_dict:
  assumes "py_get args k JNull = Inr c" and "truthy c"
  shows "truthy args"
proof (cases args)
  case (JDict d)
  then show ?thesis using assms by (cases d) (auto simp: py_get_def dget_def)
qed (use assms in \<open>simp_all add: py_get_def\<close>)

lemma shell_edits_mem:
  assumes "pat = pat_redirect \<or> pat = pat_stream" and "re_search L pat cmd = Some g"
  shows "\<exists>r\<in>set (shell_edits L cid timestamps i cmd).
           edit_type r = ''shell'' \<and> edit_file_path r = JStr g \<and> edit_content r = JStr cmd"
  using assms
  by (auto simp: shell_edits_def shell_edit_def List.map_filter_simps split: option.splits)

lemma codex_edit_item_projects:
  assumes rows: "codex_edit_item L cid timestamps (i, pl) = Inr rows"
    and ty: "py_get pl ''type'' JNull = Inr (JStr ''function_call'')"
    and nm: "py_get pl ''name'' JNull = Inr (JStr ''shell'')"
    and args: "norm_args L pl = Inr args"
    and c: "py_get args ''command'' JNull = Inr c"
    and cmd: "cmd_of c = Inr (JStr cmd)" "cmd \<noteq> []"
    and pat: "pat = pat_redirect \<or> pat = pat_stream" "re_search L pat cmd = Some g"
  shows "\<exists>r\<in>set rows.
           edit_type r = ''shell'' \<and> edit_file_path r = JStr g \<and> edit_content r = JStr cmd"
proof -
  have tc: "truthy c" by (rule cmd_of_truthy[OF cmd])
  have ta: "truthy args" by (rule py_get_truthy_dict[OF c tc])
  have "codex_edit_item L cid timestamps (i, pl) = Inr (shell_edits L cid timestamps i cmd)"
    using ty nm args c cmd tc ta by (simp add: codex_edit_item_def and_then_simps)
  then have "rows = shell_edits L cid timestamps i cmd" using rows by simp
  then show ?thesis using shell_edits_mem[OF pat] by simp
qed

lemma codex_edit_projected:
  assumes s: "parse_codex_session L p events = Inr (Some s)" and e: "e \<in> set events"
    and ety: "py_get e ''type'' JNull = Inr (JStr ''response_item'')"
    and pl: "subscript e ''payload'' = Inr pl"
    and ty: "py_get pl ''type'' JNull = Inr (JStr ''function_call'')"
    and nm: "py_get pl ''name'' JNull = Inr (JStr ''shell'')"
    and args: "norm_args L pl = Inr args"
    and c: "py_get args ''command'' JNull = Inr c"
    and cmd: "cmd_of c = Inr (JStr cmd)" "cmd \<noteq> []"
    and pat: "pat = pat_redirect \<or> pat = pat_stream" "re_search L pat cmd = Some g"
  shows "\<exists>r\<in>set (s_edits s).
           edit_type r = ''shell'' \<and> edit_file_path r = JStr g \<and> edit_content r = JStr cmd"
proof -
  from s obtain timestamps meta items ms calls outs eds where items: "items_of events = Inr items"
    and eds: "map_err (codex_edit_item L (gen_id8 codex_src (p_str p)) timestamps) items = Inr eds"
    and fin: "(case meta of
                 JDict md \<Rightarrow>
                   Inr (Some \<lparr>s_conv = codex_conv p timestamps md, s_msgs = ms,
                              s_tools = calls @ outs, s_edits = concat eds\<rparr>)
               | _ \<Rightarrow> Inl AttributeError) = Inr (Some s)"
    by (auto simp: parse_codex_session_def and_then_Inr split: if_splits)
  from fin have se: "s_edits s = concat eds" by (cases meta) auto
  from items_mem[OF items e ety pl] obtain i where "(i, pl) \<in> set items" ..
  from map_err_mem[OF eds this] obtain rows where rows: "rows \<in> set eds"
    and it: "codex_edit_item L (gen_id8 codex_src (p_str p)) timestamps (i, pl) = Inr rows" by auto
  from codex_edit_item_projects[OF it ty nm args c cmd pat] obtain r where r: "r \<in> set rows"
    and props: "edit_type r = ''shell''" "edit_file_path r = JStr g" "edit_content r = JStr cmd"
    by blast
  have "r \<in> set (s_edits s)" using r rows se by auto
  then show ?thesis using props by blast
qed


text \<open>
  The invocation of the specification's example, \<^verbatim>\<open>Write\<close> with the input
  \<^verbatim>\<open>{"file_path": "/a.py", "content": "print(1)"}\<close>, as the only block of an assistant
  message; a user message with a text; and the row the invocation is projected into in
  a log of the two.
\<close>

definition write_input :: pydict where
  "write_input = [(''file_path'', JStr ''/a.py''), (''content'', JStr ''print(1)'')]"

definition write_block :: pydict where
  "write_block = [(''type'', JStr ''tool_use''), (''name'', JStr ''Write''),
                  (''input'', JDict write_input)]"

definition write_event :: json where
  "write_event = JDict [(''type'', JStr ''assistant''),
                        (''message'', JDict [(''content'', JList [JDict write_block])])]"

definition ask_event :: json where
  "ask_event = JDict [(''type'', JStr ''user''),
                      (''message'', JDict [(''content'', JStr ''write it'')])]"

definition write_edit :: "string \<Rightarrow> 'ts edit_row" where
  "write_edit cid =
     \<lparr>edit_id = gen_id8 cc_src (''edit:'' @ cid @ '':1:0''),
      edit_message_id = gen_id8 cc_src (cid @ '':1''),
      edit_file_path = JStr ''/a.py'', edit_type = ''write'', edit_content = JStr ''print(1)'',
      edit_created_at = None\<rparr>"

lemma lower_names:
  "lower ''Write'' = ''write''" "lower ''Edit'' = ''edit''" "lower ''MultiEdit'' = ''multiedit''"
  by (simp_all add: lower_def lower_char_def char_of_def bit_iff_odd)

lemmas cc_eval = parse_claude_code_session_def timestamps_of_def py_in_def has_key_def
  and_then_def dget_def subscript_def py_get_def msg_events_def List.enumerate_eq_zip
  cc_msgs_def msg_text_def extract_content_def text_item_def join_json_def is_thinking_def
  thinking_item_def strip_def make_msg_def ts_from_iso_def make_tools_def make_edits_def
  tools_and_ts_def tool_row_of_def edit_item_def tool_results_def is_attachment_def
  str_nat_digit msg_key_def lower_names

lemma write_only_dropped: "parse_claude_code_session L p [write_event] = Inr None"
  by (simp add: cc_eval write_event_def write_block_def write_input_def)

lemma write_session_edits:
  "\<exists>s. parse_claude_code_session L p [ask_event, write_event] = Inr (Some s)
        \<and> s_edits s = [write_edit (gen_id8 cc_src (p_str p))]"
  by (simp add: cc_eval write_event_def ask_event_def write_block_def write_input_def
      write_edit_def)


text \<open>
  A Codex log of a user message and a shell call, and a library whose \<^verbatim>\<open>re.search\<close>
  finds the redirect pattern in the command of the call, with group 1 the target.
\<close>

definition hi_event :: json where
  "hi_event =
     JDict [(''type'', JStr ''response_item''),
            (''payload'', JDict [(''type'', JStr ''message''), (''role'', JStr ''user''),
               (''content'', JList [JDict [(''type'', JStr ''input_text''),
                                            (''text'', JStr ''hi'')]])])]"

definition echo_args :: json where
  "echo_args = JDict [(''command'', JList [JStr ''bash'', JStr ''-lc'', JStr ''echo hi > /tmp/x''])]"

definition echo_call :: json where
  "echo_call = JDict [(''type'', JStr ''function_call''), (''name'', JStr ''shell''),
                      (''arguments'', echo_args)]"

definition echo_event :: json where
  "echo_event = JDict [(''type'', JStr ''response_item''), (''payload'', echo_call)]"

definition lib_echo :: "unit pylib" where
  "lib_echo =
     \<lparr>fromisoformat = (\<lambda>s. Some ()), fromtimestamp = (\<lambda>v. Some ()),
      json_loads = (\<lambda>s. None),
      re_search = (\<lambda>pat s. if pat = pat_redirect \<and> s = ''bash -lc echo hi > /tmp/x''
                              then Some ''/tmp/x'' else None),
      py_repr = (\<lambda>v. [])\<rparr>"

definition log0 :: path where
  "log0 = \<lparr>p_str = ''/logs/proj/s.jsonl'', p_parent_name = ''proj'', p_stem = ''s''\<rparr>"

lemma is_space_hi: "\<not> is_space CHR ''h''" "\<not> is_space CHR ''i''"
  by (simp_all add: is_space_def)

lemma pats_differ: "pat_stream \<noteq> pat_redirect"
  by (simp add: pat_stream_def pat_redirect_def)

lemma echo_session:
  "\<exists>s. parse_codex_session lib_echo log0 [hi_event, echo_event] = Inr (Some s)
        \<and> map edit_type (s_edits s) = [''shell'']
        \<and> map edit_file_path (s_edits s) = [JStr ''/tmp/x'']"
  by (simp add: parse_codex_session_def timestamps_of_def py_in_def has_key_def and_then_def
      dget_def subscript_def py_get_def items_of_def List.enumerate_eq_zip codex_msg_item_def
      extract_msg_text_def py_iter_def is_text_block_def join_json_def strip_def is_space_hi
      codex_call_item_def codex_output_item_def codex_edit_item_def norm_args_def cmd_of_def
      shell_edits_def shell_edit_def List.map_filter_simps lib_echo_def pats_differ
      hi_event_def echo_event_def echo_call_def echo_args_def find_meta.simps)

text \<open>
  C7, for the sessions that are archived. When the Claude Code normalizer returns a
  session, every tool invocation of a message event that is named Write, Edit or
  MultiEdit and whose input is a dict with a non-empty \<^verbatim>\<open>file_path\<close> has a FileEdit row
  in it, with the lowercased tool name as edit kind, that file path, and the content or
  new string of the input. When the Codex normalizer returns a session, every function
  call named shell whose command, joined by blanks if it is a list, is found by the
  redirect or the stream-edit pattern has a FileEdit row of kind "shell" in it, with
  group 1 of the match as file path and the command as content. The log of a user
  message with a text and of the example invocation yields exactly one FileEdit, of
  kind "write" and file path "/a.py".
\<close>

theorem tool_to_edit_projection:
  "(parse_claude_code_session L p events = Inr (Some s) \<and> e \<in> set events
      \<and> subscript e ''message'' = Inr m \<and> py_get m ''content'' (JList []) = Inr (JList bs)
      \<and> JDict b \<in> set bs \<and> dget b ''type'' JNull = JStr ''tool_use''
      \<and> dget b ''name'' JNull = JStr n \<and> (n = ''Write'' \<or> n = ''Edit'' \<or> n = ''MultiEdit'')
      \<and> dget b ''input'' (JDict []) = JDict inp \<and> truthy (dget inp ''file_path'' JNull)
    \<longrightarrow> (\<exists>r\<in>set (s_edits s). edit_type r = lower n
            \<and> edit_file_path r = dget inp ''file_path'' JNull
            \<and> edit_content r = (if truthy (dget inp ''content'' JNull)
                                 then dget inp ''content'' JNull
                                 else dget inp ''new_string'' (JStr []))))
   \<and> lower ''Write'' = ''write'' \<and> lower ''Edit'' = ''edit'' \<and> lower ''MultiEdit'' = ''multiedit''
   \<and> (parse_codex_session L q events' = Inr (Some s') \<and> e' \<in> set events'
      \<and> py_get e' ''type'' JNull = Inr (JStr ''response_item'')
      \<and> subscript e' ''payload'' = Inr pl
      \<and> py_get pl ''type'' JNull = Inr (JStr ''function_call'')
      \<and> py_get pl ''name'' JNull = Inr (JStr ''shell'')
      \<and> norm_args L pl = Inr args \<and> py_get args ''command'' JNull = Inr c
      \<and> cmd_of c = Inr (JStr cmd) \<and> cmd \<noteq> []
      \<and> (pat = pat_redirect \<or> pat = pat_stream) \<and> re_search L pat cmd = Some g
    \<longrightarrow> (\<exists>r\<in>set (s_edits s'). edit_type r = ''shell'' \<and> edit_file_path r = JStr g
            \<and> edit_content r = JStr cmd))
   \<and> (\<exists>s. parse_claude_code_session L p [ask_event, write_event] = Inr (Some s)
        \<and> s_edits s = [write_edit (gen_id8 cc_src (p_str p))])"
proof -
  have cc: "\<exists>r\<in>set (s_edits s). edit_type r = lower n
            \<and> edit_file_path r = dget inp ''file_path'' JNull
            \<and> edit_content r = (if truthy (dget inp ''content'' JNull)
                                 then dget inp ''content'' JNull
                                 else dget inp ''new_string'' (JStr []))"
    if "parse_claude_code_session L p events = Inr (Some s)" "e \<in> set events"
      "subscript e ''message'' = Inr m" "py_get m ''content'' (JList []) = Inr (JList bs)"
      "JDict b \<in> set bs" "dget b ''type'' JNull = JStr ''tool_use''"
      "dget b ''name'' JNull = JStr n" "n = ''Write'' \<or> n = ''Edit'' \<or> n = ''MultiEdit''"
      "dget b ''input'' (JDict []) = JDict inp" "truthy (dget inp ''file_path'' JNull)"
  proof -
    have "n \<in> {''Write'', ''Edit'', ''MultiEdit''}" using that(8) by blast
    from claude_code_edit_projected[OF that(1-7) this that(9,10)] show ?thesis .
  qed
  have cx: "\<exists>r\<in>set (s_edits s'). edit_type r = ''shell'' \<and> edit_file_path r = JStr g
            \<and> edit_content r = JStr cmd"
    if "parse_codex_session L q events' = Inr (Some s')" "e' \<in> set events'"
      "py_get e' ''type'' JNull = Inr (JStr ''response_item'')"
      "subscript e' ''payload'' = Inr pl"
      "py_get pl ''type'' JNull = Inr (JStr ''function_call'')"
      "py_get pl ''name'' JNull = Inr (JStr ''shell'')"
      "norm_args L pl = Inr args" "py_get args ''command'' JNull = Inr c"
      "cmd_of c = Inr (JStr cmd)" "cmd \<noteq> []"
      "pat = pat_redirect \<or> pat = pat_stream" "re_search L pat cmd = Some g"
    using codex_edit_projected[OF that] .
  show ?thesis
    by (intro conjI impI lower_names write_session_edits; (elim conjE)?; (rule cc cx; assumption))
qed

text \<open>
  Without the restriction the claim fails. In the log whose only event is the assistant
  message of the example invocation no message has a text, the session is dropped, and
  the invocation yields no FileEdit.
\<close>

theorem write_only_session_no_edit:
  "\<forall>(L :: unit pylib) p.
     parse_claude_code_session L p [write_event] = Inr None
     \<and> parse_claude_code L [(p, [write_event])] = Inr ParseResult"
  by (simp add: write_only_dropped parse_claude_code_def and_then_def result_of_sessions_def
      ParseResult_def)

text \<open>The projection at the two logs above.\<close>

theorem tool_to_edit_projection_witness:
  "(\<exists>s. parse_claude_code_session lib_echo log0 [ask_event, write_event] = Inr (Some s)
        \<and> (\<exists>r\<in>set (s_edits s). edit_type r = ''write'' \<and> edit_file_path r = JStr ''/a.py''
              \<and> edit_content r = JStr ''print(1)''))
   \<and> (\<exists>s. parse_codex_session lib_echo log0 [hi_event, echo_event] = Inr (Some s)
        \<and> (\<exists>r\<in>set (s_edits s). edit_type r = ''shell'' \<and> edit_file_path r = JStr ''/tmp/x''
              \<and> edit_content r = JStr ''bash -lc echo hi > /tmp/x''))"
proof -
  obtain s where s: "parse_claude_code_session lib_echo log0 [ask_event, write_event] = Inr (Some s)"
    using write_session_edits by blast
  obtain s' where s': "parse_codex_session lib_echo log0 [hi_event, echo_event] = Inr (Some s')"
    using echo_session by blast
  note t = tool_to_edit_projection [where L = lib_echo and p = log0 and q = log0
      and events = "[ask_event, write_event]" and s = s and e = write_event
      and m = "JDict [(''content'', JList [JDict write_block])]" and bs = "[JDict write_block]"
      and b = write_block and n = "''Write''" and inp = write_input
      and events' = "[hi_event, echo_event]" and s' = s' and e' = echo_event and pl = echo_call
      and args = echo_args
      and c = "JList [JStr ''bash'', JStr ''-lc'', JStr ''echo hi > /tmp/x'']"
      and cmd = "''bash -lc echo hi > /tmp/x''" and pat = pat_redirect and g = "''/tmp/x''"]
  have a: "\<exists>r\<in>set (s_edits s). edit_type r = ''write'' \<and> edit_file_path r = JStr ''/a.py''
              \<and> edit_content r = JStr ''print(1)''"
    using t[THEN conjunct1] s
    by (simp add: write_event_def write_block_def write_input_def subscript_def py_get_def
        dget_def lower_names)
  have b: "\<exists>r\<in>set (s_edits s'). edit_type r = ''shell'' \<and> edit_file_path r = JStr ''/tmp/x''
              \<and> edit_content r = JStr ''bash -lc echo hi > /tmp/x''"
    using t[THEN conjunct2, THEN conjunct2, THEN conjunct2, THEN conjunct2, THEN conjunct1] s'
    by (simp add: echo_event_def echo_call_def echo_args_def subscript_def py_get_def dget_def
        norm_args_def cmd_of_def join_json_def and_then_def lib_echo_def)
  show ?thesis using a b s s' by blast
qed

section \<open>The export normalizers\<close>







subsection \<open>ChatGPT export\<close>











subsection \<open>Claude export\<close>










section \<open>Export conversations are kept\<close>

















section \<open>The planner of the sync cycle\<close>


text \<open>
  A job is the dict the planner returns: \<^verbatim>\<open>func\<close> is the call it defers, a parser on a
  path with the list of files it is given, if any, or \<^verbatim>\<open>parse_source\<close> on a path;
  \<^verbatim>\<open>state\<close> is the section, key and value handed to \<^verbatim>\<open>set_state\<close> after the job.
\<close>

datatype 'f work = Parser 'f string "string list option" | ParseSource string

record 'f job =
  j_name :: string
  j_label :: string
  j_source :: "string option"
  j_func :: "'f work"
  j_state :: "string \<times> string \<times> json"













section \<open>Planner gating\<close>

















section \<open>The executor of the sync cycle\<close>

text \<open>
  The sync state is the dict of the state file, a section for each kind of source.
  \<^verbatim>\<open>set_state(section, key, val)\<close> compares with Python's \<^verbatim>\<open>!=\<close>, under which 1 and 1.0
  are equal and the order of the keys of a dict plays no part; the equality is a
  parameter, and every theorem holds for all of them.
\<close>

fun dset :: "pydict \<Rightarrow> string \<Rightarrow> json \<Rightarrow> pydict" where
  "dset [] k v = [(k, v)]"
| "dset ((k', v') # d) k v = (if k' = k then (k, v) # d else (k', v') # dset d k v)"

text \<open>
  \<^verbatim>\<open>if state.setdefault(section, {}).get(key) != val: state[section][key] = val; dirty = True\<close>,
  on the state and the flag.
\<close>

definition setdefault :: "pydict \<Rightarrow> string \<Rightarrow> pydict" where
  "setdefault state section =
     (if has_key state section then state else state @ [(section, JDict [])])"

definition set_state ::
  "(json \<Rightarrow> json \<Rightarrow> bool) \<Rightarrow> pydict \<times> bool \<Rightarrow> string \<times> string \<times> json
     \<Rightarrow> py_error + pydict \<times> bool" where
  "set_state eq sd st =
     (let section = fst st; key = fst (snd st); val = snd (snd st);
          state = setdefault (fst sd) section in
      case dget state section JNull of
        JDict d \<Rightarrow>
          if eq (dget d key JNull) val then Inr (state, snd sd)
          else Inr (dset state section (JDict (dset d key val)), True)
      | _ \<Rightarrow> Inl AttributeError)"

text \<open>
  What a cycle of \<^verbatim>\<open>do_sync\<close> holds while the jobs complete: the database behind the
  connection, the state and \<^verbatim>\<open>dirty\<close>, the totals, \<^verbatim>\<open>changed\<close>, and the lines it has
  printed, \<^verbatim>\<open>"{name} failed: {e}"\<close> and \<^verbatim>\<open>"Updated {label} (...)"\<close>.
\<close>

datatype 'x line = Failed string 'x | Updated string upsert_counts

record ('db, 'x) cycle =
  c_db :: 'db
  c_state :: pydict
  c_dirty :: bool
  c_total :: "nat list"
  c_newc :: nat
  c_updc :: nat
  c_changed :: bool
  c_log :: "'x line list"

text \<open>
  The exception that ends a cycle. Only \<^verbatim>\<open>fut.result()\<close> stands in the \<^verbatim>\<open>try\<close>: an
  exception of \<^verbatim>\<open>upsert\<close>, of \<^verbatim>\<open>set_state\<close> or of \<^verbatim>\<open>rebuild_fts_index\<close> leaves \<^verbatim>\<open>do_sync\<close>.
\<close>

datatype 'x abort = MergeRaised 'x | StateRaised py_error | IndexRaised 'x

text \<open>
  One pass of \<^verbatim>\<open>for fut in as_completed(futs)\<close>, for a job and what its future holds, an
  exception or a result. The merge is \<^verbatim>\<open>upsert\<close> on the connection, a parameter that may
  raise.
\<close>

definition counts_list :: "upsert_counts \<Rightarrow> nat list" where
  "counts_list n = [n_convs n, n_msgs n, n_tools n, n_attachs n, n_edits n]"

definition has_source :: "'f job \<Rightarrow> bool" where
  "has_source j = (case j_source j of None \<Rightarrow> False | Some s \<Rightarrow> s \<noteq> [])"

definition run_job ::
  "('db \<Rightarrow> 'r \<Rightarrow> 'x + 'db \<times> upsert_counts) \<Rightarrow> (json \<Rightarrow> json \<Rightarrow> bool)
     \<Rightarrow> ('db, 'x) cycle \<Rightarrow> 'f job \<times> ('x + 'r) \<Rightarrow> 'x abort + ('db, 'x) cycle" where
  "run_job merge eq cyc jo =
     (case snd jo of
        Inl e \<Rightarrow> Inr (cyc\<lparr>c_log := c_log cyc @ [Failed (j_name (fst jo)) e]\<rparr>)
      | Inr r \<Rightarrow>
          (case merge (c_db cyc) r of
             Inl e \<Rightarrow> Inl (MergeRaised e)
           | Inr dn \<Rightarrow>
               (case set_state eq (c_state cyc, c_dirty cyc) (j_state (fst jo)) of
                  Inl e \<Rightarrow> Inl (StateRaised e)
                | Inr sd \<Rightarrow>
                    Inr (cyc\<lparr>c_db := fst dn, c_state := fst sd, c_dirty := snd sd,
                             c_total := map2 (+) (c_total cyc) (counts_list (snd dn)),
                             c_newc := c_newc cyc + n_new (snd dn),
                             c_updc := c_updc cyc + n_updated (snd dn),
                             c_changed := (c_changed cyc
                                \<or> list_ex (\<lambda>v. v \<noteq> 0) (counts_list (snd dn))),
                             c_log := c_log cyc @
                                (if has_source (fst jo) then [Updated (j_label (fst jo)) (snd dn)]
                                 else [])\<rparr>))))"

fun run_jobs ::
  "('db \<Rightarrow> 'r \<Rightarrow> 'x + 'db \<times> upsert_counts) \<Rightarrow> (json \<Rightarrow> json \<Rightarrow> bool)
     \<Rightarrow> ('f job \<times> ('x + 'r)) list \<Rightarrow> ('db, 'x) cycle \<Rightarrow> 'x abort + ('db, 'x) cycle" where
  "run_jobs merge eq [] cyc = Inr cyc"
| "run_jobs merge eq (jo # jos) cyc =
     (case run_job merge eq cyc jo of
        Inl a \<Rightarrow> Inl a
      | Inr cyc' \<Rightarrow> run_jobs merge eq jos cyc')"

text \<open>
  The end of the cycle, \<^verbatim>\<open>if changed: rebuild_fts_index(conn)\<close> and
  \<^verbatim>\<open>if dirty: save_state(state)\<close>: the database and the content of the state file after it.
\<close>

definition finish ::
  "('db \<Rightarrow> 'x + 'db) \<Rightarrow> ('db, 'x) cycle \<Rightarrow> pydict \<Rightarrow> 'x abort + 'db \<times> pydict" where
  "finish rebuild cyc disk =
     (case (if c_changed cyc then rebuild (c_db cyc) else Inr (c_db cyc)) of
        Inl e \<Rightarrow> Inl (IndexRaised e)
      | Inr db \<Rightarrow> Inr (db, if c_dirty cyc then c_state cyc else disk))"

definition do_sync ::
  "('db \<Rightarrow> 'r \<Rightarrow> 'x + 'db \<times> upsert_counts) \<Rightarrow> ('db \<Rightarrow> 'x + 'db) \<Rightarrow> (json \<Rightarrow> json \<Rightarrow> bool)
     \<Rightarrow> ('f job \<times> ('x + 'r)) list \<Rightarrow> ('db, 'x) cycle \<Rightarrow> pydict \<Rightarrow> 'x abort + 'db \<times> pydict" where
  "do_sync merge rebuild eq futs cyc disk =
     (case run_jobs merge eq futs cyc of
        Inl a \<Rightarrow> Inl a
      | Inr fin \<Rightarrow> finish rebuild fin disk)"


text \<open>
  \<^verbatim>\<open>init_schema\<close> declares the column \<^verbatim>\<open>role\<close> of \<^verbatim>\<open>messages\<close> \<^verbatim>\<open>NOT NULL\<close>: the \<^verbatim>\<open>INSERT\<close> of a
  message whose role is \<^verbatim>\<open>None\<close> raises a constraint error, and \<^verbatim>\<open>upsert\<close> has no handler.
  \<open>upsert_checked\<close> is \<^verbatim>\<open>upsert\<close> on a database that refuses such a message, and nothing
  else.
\<close>

definition upsert_checked ::
  "'ts db \<Rightarrow> 'ts parse_result \<Rightarrow> string + 'ts db \<times> upsert_counts" where
  "upsert_checked d r =
     (if list_ex (\<lambda>m. msg_role m = JNull) (msgs r)
      then Inl ''NOT NULL constraint failed: messages.role''
      else Inr (upsert d r))"

text \<open>\<^verbatim>\<open>state.get(section, {}).get(key)\<close>, the watermark the state holds for a key.\<close>

definition state_get :: "pydict \<Rightarrow> string \<Rightarrow> string \<Rightarrow> json" where
  "state_get state section key =
     (case dget state section (JDict []) of JDict d \<Rightarrow> dget d key JNull | _ \<Rightarrow> JNull)"

text \<open>
  What the theorems read of a list of completed jobs: whether a job succeeded, the results
  of the ones that did, and the lines of the ones that failed; and a cycle without its
  lines.
\<close>

definition succeeded :: "'f job \<times> ('x + 'r) \<Rightarrow> bool" where
  "succeeded jo = (case snd jo of Inl e \<Rightarrow> False | Inr r \<Rightarrow> True)"

definition results :: "('f job \<times> ('x + 'r)) list \<Rightarrow> 'r list" where
  "results futs = List.map_filter (\<lambda>jo. case snd jo of Inl e \<Rightarrow> None | Inr r \<Rightarrow> Some r) futs"

definition failure_lines :: "('f job \<times> ('x + 'r)) list \<Rightarrow> 'x line list" where
  "failure_lines futs =
     List.map_filter (\<lambda>jo. case snd jo of Inl e \<Rightarrow> Some (Failed (j_name (fst jo)) e)
                                  | Inr r \<Rightarrow> None) futs"

definition is_failure :: "'x line \<Rightarrow> bool" where
  "is_failure l = (case l of Failed n e \<Rightarrow> True | Updated n c \<Rightarrow> False)"

definition quiet :: "('db, 'x) cycle \<Rightarrow> ('db, 'x) cycle" where
  "quiet cyc = cyc\<lparr>c_log := []\<rparr>"

definition effect :: "'x abort + ('db, 'x) cycle \<Rightarrow> 'x abort + ('db, 'x) cycle" where
  "effect res = (case res of Inl a \<Rightarrow> Inl a | Inr cyc \<Rightarrow> Inr (quiet cyc))"

fun merge_all :: "('db \<Rightarrow> 'r \<Rightarrow> 'x + 'db \<times> upsert_counts) \<Rightarrow> 'db \<Rightarrow> 'r list \<Rightarrow> 'x + 'db" where
  "merge_all merge d [] = Inr d"
| "merge_all merge d (r # rs) =
     (case merge d r of Inl e \<Rightarrow> Inl e | Inr dn \<Rightarrow> merge_all merge (fst dn) rs)"

text \<open>
  The state holds the watermark of a job when it has, at the section and key of the job,
  the value of the job or one equal to it.
\<close>

definition holds :: "(json \<Rightarrow> json \<Rightarrow> bool) \<Rightarrow> pydict \<Rightarrow> string \<times> string \<times> json \<Rightarrow> bool" where
  "holds eq state st =
     (state_get state (fst st) (fst (snd st)) = snd (snd st)
      \<or> eq (state_get state (fst st) (fst (snd st))) (snd (snd st)))"

definition same_key :: "string \<times> string \<times> json \<Rightarrow> string \<times> string \<times> json \<Rightarrow> bool" where
  "same_key st st' = (fst st = fst st' \<and> fst (snd st) = fst (snd st'))"

section \<open>Failure isolation and persistence\<close>

lemma dget_dset: "dget (dset d k v) k' dflt = (if k' = k then v else dget d k' dflt)"
  by (induction d) (auto simp: dget_def)

lemma dget_setdefault:
  "dget (setdefault state section) k (JDict []) = dget state k (JDict [])"
  by (auto simp: setdefault_def dget_def has_key_def map_of_append split: option.splits if_splits)

lemma dget_setdefault_same:
  "dget (setdefault state section) section JNull = dget state section (JDict [])"
  by (auto simp: setdefault_def dget_def has_key_def map_of_append split: option.splits if_splits)

lemma state_get_setdefault: "state_get (setdefault state section) = state_get state"
  by (intro ext) (simp add: state_get_def dget_setdefault)

lemma set_state_cases:
  assumes "set_state eq (state, dirty) (section, key, val) = Inr (state', dirty')"
  obtains (kept) "eq (state_get state section key) val" "state' = setdefault state section"
      "dirty' = dirty"
    | (stored) d where "\<not> eq (state_get state section key) val"
      "dget state section (JDict []) = JDict d"
      "state' = dset (setdefault state section) section (JDict (dset d key val))" "dirty'"
proof (cases "dget state section (JDict [])")
  case (JDict d)
  then have sg: "state_get state section key = dget d key JNull"
    by (simp add: state_get_def)
  show ?thesis
  proof (cases "eq (dget d key JNull) val")
    case True
    with assms JDict sg show ?thesis
      by (intro kept) (simp_all add: set_state_def dget_setdefault_same)
  next
    case False
    with assms JDict sg show ?thesis
      by (intro stored[of d]) (simp_all add: set_state_def dget_setdefault_same)
  qed
qed (use assms in \<open>simp_all add: set_state_def dget_setdefault_same\<close>)

lemma set_state_other:
  assumes "set_state eq (state, dirty) (section, key, val) = Inr (state', dirty')"
    and "(section', key') \<noteq> (section, key)"
  shows "state_get state' section' key' = state_get state section' key'"
  using assms(1)
proof (cases rule: set_state_cases)
  case kept
  then show ?thesis by (simp add: state_get_setdefault)
next
  case (stored d)
  show ?thesis
  proof (cases "section' = section")
    case True
    then have "key' \<noteq> key" using assms(2) by simp
    then show ?thesis using stored True by (simp add: state_get_def dget_dset)
  next
    case False
    then show ?thesis using stored by (simp add: state_get_def dget_dset dget_setdefault)
  qed
qed

lemma set_state_same:
  assumes "set_state eq (state, dirty) (section, key, val) = Inr (state', dirty')"
  shows "state_get state' section key = val \<or> eq (state_get state' section key) val"
  using assms
proof (cases rule: set_state_cases)
  case kept
  then show ?thesis by (simp add: state_get_setdefault)
next
  case (stored d)
  then show ?thesis by (simp add: state_get_def dget_dset)
qed

lemma set_state_dirty:
  assumes "set_state eq (state, dirty) (section, key, val) = Inr (state', dirty')"
  shows "dirty' = (dirty \<or> \<not> eq (state_get state section key) val)"
    and "\<not> dirty' \<Longrightarrow> state_get state' = state_get state"
  using assms by (cases rule: set_state_cases; simp add: state_get_setdefault)+


lemma run_jobs_append:
  "run_jobs merge eq (xs @ ys) cyc =
     (case run_jobs merge eq xs cyc of Inl a \<Rightarrow> Inl a | Inr c \<Rightarrow> run_jobs merge eq ys c)"
  by (induction xs arbitrary: cyc) (auto split: sum.splits)

lemma run_job_failed:
  "run_job merge eq cyc (j, Inl e) = Inr (cyc\<lparr>c_log := c_log cyc @ [Failed (j_name j) e]\<rparr>)"
  by (simp add: run_job_def)

lemma succeeded_simps: "\<not> succeeded (j, Inl e)" "succeeded (j, Inr r)"
  by (simp_all add: succeeded_def)

lemma effect_simps: "effect (Inl a) = Inl a" "effect (Inr cyc) = Inr (quiet cyc)"
  by (simp_all add: effect_def)

lemma run_job_quiet:
  assumes "quiet cyc = quiet cyc'"
  shows "effect (run_job merge eq cyc jo) = effect (run_job merge eq cyc' jo)"
proof -
  from assms have eqs: "c_db cyc = c_db cyc'" "c_state cyc = c_state cyc'"
    "c_dirty cyc = c_dirty cyc'" "c_total cyc = c_total cyc'" "c_newc cyc = c_newc cyc'"
    "c_updc cyc = c_updc cyc'" "c_changed cyc = c_changed cyc'"
    "cycle.more cyc = cycle.more cyc'"
    by (cases cyc; cases cyc'; simp add: quiet_def)+
  then show ?thesis
    by (cases cyc; cases cyc')
       (auto simp: run_job_def quiet_def effect_def split: sum.splits)
qed

lemma run_jobs_quiet:
  assumes "quiet cyc = quiet cyc'"
  shows "effect (run_jobs merge eq futs cyc) = effect (run_jobs merge eq futs cyc')"
  using assms
proof (induction futs arbitrary: cyc cyc')
  case Nil
  then show ?case by (simp add: effect_simps)
next
  case (Cons jo futs)
  note m = run_job_quiet[OF Cons.prems, of merge eq jo]
  show ?case
  proof (cases "run_job merge eq cyc jo")
    case (Inl a)
    then have "run_job merge eq cyc' jo = Inl a"
      using m by (cases "run_job merge eq cyc' jo") (simp_all add: effect_simps)
    then show ?thesis using Inl by simp
  next
    case (Inr c)
    then obtain c' where c': "run_job merge eq cyc' jo = Inr c'" and q: "quiet c = quiet c'"
      using m by (cases "run_job merge eq cyc' jo") (simp_all add: effect_simps)
    from Cons.IH[OF q] show ?thesis using Inr c' by simp
  qed
qed

lemma failed_job_isolated:
  "effect (run_jobs merge eq futs cyc) = effect (run_jobs merge eq (filter succeeded futs) cyc)"
proof (induction futs arbitrary: cyc)
  case Nil
  then show ?case by simp
next
  case (Cons jo futs)
  obtain j out where jo: "jo = (j, out)" by (cases jo)
  show ?case
  proof (cases out)
    case (Inl e)
    have "effect (run_jobs merge eq futs (cyc\<lparr>c_log := c_log cyc @ [Failed (j_name j) e]\<rparr>))
            = effect (run_jobs merge eq futs cyc)"
      by (rule run_jobs_quiet) (simp add: quiet_def)
    also have "\<dots> = effect (run_jobs merge eq (filter succeeded futs) cyc)"
      by (rule Cons.IH)
    finally show ?thesis using jo Inl by (simp add: succeeded_simps run_job_failed)
  next
    case (Inr r)
    then show ?thesis using jo Cons.IH
      by (cases "run_job merge eq cyc (j, Inr r)") (simp_all add: succeeded_simps)
  qed
qed


lemma run_job_succeeded:
  assumes "run_job merge eq cyc (j, Inr r) = Inr cyc'"
  obtains d n where "merge (c_db cyc) r = Inr (d, n)" "c_db cyc' = d"
    "set_state eq (c_state cyc, c_dirty cyc) (j_state j) = Inr (c_state cyc', c_dirty cyc')"
    "filter is_failure (c_log cyc') = filter is_failure (c_log cyc)"
proof -
  from assms obtain dn sd where m: "merge (c_db cyc) r = Inr dn"
    and st: "set_state eq (c_state cyc, c_dirty cyc) (j_state j) = Inr sd"
    and c: "cyc' = cyc\<lparr>c_db := fst dn, c_state := fst sd, c_dirty := snd sd,
              c_total := map2 (+) (c_total cyc) (counts_list (snd dn)),
              c_newc := c_newc cyc + n_new (snd dn),
              c_updc := c_updc cyc + n_updated (snd dn),
              c_changed := (c_changed cyc \<or> list_ex (\<lambda>v. v \<noteq> 0) (counts_list (snd dn))),
              c_log := c_log cyc @ (if has_source j then [Updated (j_label j) (snd dn)] else [])\<rparr>"
    by (auto simp: run_job_def split: sum.splits)
  show ?thesis
    by (rule that[of "fst dn" "snd dn"]) (simp_all add: m st c is_failure_def)
qed

lemma failures_logged:
  "run_jobs merge eq futs cyc = Inr fin
     \<Longrightarrow> filter is_failure (c_log fin) = filter is_failure (c_log cyc) @ failure_lines futs"
proof (induction futs arbitrary: cyc)
  case Nil
  then show ?case by (simp add: failure_lines_def List.map_filter_simps)
next
  case (Cons jo futs)
  obtain j out where jo: "jo = (j, out)" by (cases jo)
  from Cons.prems obtain c where c: "run_job merge eq cyc jo = Inr c"
    and rest: "run_jobs merge eq futs c = Inr fin"
    by (auto split: sum.splits)
  show ?case
  proof (cases out)
    case (Inl e)
    then have "c = cyc\<lparr>c_log := c_log cyc @ [Failed (j_name j) e]\<rparr>"
      using c jo by (simp add: run_job_failed)
    then show ?thesis using Cons.IH[OF rest] jo Inl
      by (simp add: failure_lines_def List.map_filter_simps is_failure_def)
  next
    case (Inr r)
    from c jo Inr have "run_job merge eq cyc (j, Inr r) = Inr c" by simp
    then have "filter is_failure (c_log c) = filter is_failure (c_log cyc)"
      by (rule run_job_succeeded)
    then show ?thesis using Cons.IH[OF rest] jo Inr
      by (simp add: failure_lines_def List.map_filter_simps)
  qed
qed

lemma results_merged:
  "run_jobs merge eq futs cyc = Inr fin
     \<Longrightarrow> merge_all merge (c_db cyc) (results futs) = Inr (c_db fin)"
proof (induction futs arbitrary: cyc)
  case Nil
  then show ?case by (simp add: results_def List.map_filter_simps)
next
  case (Cons jo futs)
  obtain j out where jo: "jo = (j, out)" by (cases jo)
  from Cons.prems obtain c where c: "run_job merge eq cyc jo = Inr c"
    and rest: "run_jobs merge eq futs c = Inr fin"
    by (auto split: sum.splits)
  show ?case
  proof (cases out)
    case (Inl e)
    then have "c_db c = c_db cyc" using c jo by (auto simp: run_job_failed)
    then show ?thesis using Cons.IH[OF rest] jo Inl
      by (simp add: results_def List.map_filter_simps)
  next
    case (Inr r)
    from c jo Inr have "run_job merge eq cyc (j, Inr r) = Inr c" by simp
    then obtain d n where "merge (c_db cyc) r = Inr (d, n)" "c_db c = d"
      by (rule run_job_succeeded)
    then show ?thesis using Cons.IH[OF rest] jo Inr
      by (simp add: results_def List.map_filter_simps)
  qed
qed

lemma run_job_dirty:
  assumes "run_job merge eq cyc jo = Inr c"
  shows "c_dirty cyc \<Longrightarrow> c_dirty c"
    and "\<not> c_dirty c \<Longrightarrow> state_get (c_state c) = state_get (c_state cyc)"
proof -
  obtain j out where jo: "jo = (j, out)" by (cases jo)
  have "(c_dirty cyc \<longrightarrow> c_dirty c)
      \<and> (\<not> c_dirty c \<longrightarrow> state_get (c_state c) = state_get (c_state cyc))"
  proof (cases out)
    case (Inl e)
    then show ?thesis using assms jo by (auto simp: run_job_failed)
  next
    case (Inr r)
    from assms jo Inr have "run_job merge eq cyc (j, Inr r) = Inr c" by simp
    then have st: "set_state eq (c_state cyc, c_dirty cyc) (j_state j)
                     = Inr (c_state c, c_dirty c)"
      by (rule run_job_succeeded)
    obtain sec key val where k: "j_state j = (sec, key, val)"
      by (cases "j_state j")
    from set_state_dirty[OF st[unfolded k]] show ?thesis by auto
  qed
  then show "c_dirty cyc \<Longrightarrow> c_dirty c"
    and "\<not> c_dirty c \<Longrightarrow> state_get (c_state c) = state_get (c_state cyc)" by auto
qed

lemma run_jobs_dirty:
  assumes "run_jobs merge eq futs cyc = Inr fin"
  shows "c_dirty cyc \<Longrightarrow> c_dirty fin"
    and "\<not> c_dirty fin \<Longrightarrow> state_get (c_state fin) = state_get (c_state cyc)"
proof -
  have "(c_dirty cyc \<longrightarrow> c_dirty fin)
      \<and> (\<not> c_dirty fin \<longrightarrow> state_get (c_state fin) = state_get (c_state cyc))"
    using assms
  proof (induction futs arbitrary: cyc)
    case Nil
    then show ?case by simp
  next
    case (Cons jo futs)
    from Cons.prems obtain c where c: "run_job merge eq cyc jo = Inr c"
      and rest: "run_jobs merge eq futs c = Inr fin"
      by (auto split: sum.splits)
    from Cons.IH[OF rest] run_job_dirty[OF c] show ?case by auto
  qed
  then show "c_dirty cyc \<Longrightarrow> c_dirty fin"
    and "\<not> c_dirty fin \<Longrightarrow> state_get (c_state fin) = state_get (c_state cyc)" by auto
qed


lemma run_job_keeps:
  assumes c: "run_job merge eq cyc jo = Inr c" and h: "holds eq (c_state cyc) st"
    and compat: "succeeded jo \<Longrightarrow> same_key (j_state (fst jo)) st \<Longrightarrow> j_state (fst jo) = st"
  shows "holds eq (c_state c) st"
proof -
  obtain j out where jo: "jo = (j, out)" by (cases jo)
  show ?thesis
  proof (cases out)
    case (Inl e)
    then show ?thesis using c jo h by (auto simp: run_job_failed)
  next
    case (Inr r)
    from c jo Inr have "run_job merge eq cyc (j, Inr r) = Inr c" by simp
    then have st: "set_state eq (c_state cyc, c_dirty cyc) (j_state j)
                     = Inr (c_state c, c_dirty c)"
      by (rule run_job_succeeded)
    obtain sec key val where k: "j_state j = (sec, key, val)" by (cases "j_state j")
    show ?thesis
    proof (cases "same_key (j_state j) st")
      case True
      then have "j_state j = st" using compat jo Inr by (simp add: succeeded_simps)
      then show ?thesis using set_state_same[OF st[unfolded k]] k by (auto simp: holds_def)
    next
      case False
      then have "(fst st, fst (snd st)) \<noteq> (sec, key)" using k by (auto simp: same_key_def)
      from set_state_other[OF st[unfolded k] this] h show ?thesis by (simp add: holds_def)
    qed
  qed
qed

lemma run_jobs_keeps:
  assumes "run_jobs merge eq futs cyc = Inr fin" and "holds eq (c_state cyc) st"
    and "\<forall>jo\<in>set futs. succeeded jo \<longrightarrow> same_key (j_state (fst jo)) st \<longrightarrow> j_state (fst jo) = st"
  shows "holds eq (c_state fin) st"
  using assms
proof (induction futs arbitrary: cyc)
  case Nil
  then show ?case by simp
next
  case (Cons jo futs)
  from Cons.prems(1) obtain c where c: "run_job merge eq cyc jo = Inr c"
    and rest: "run_jobs merge eq futs c = Inr fin"
    by (auto split: sum.splits)
  have "holds eq (c_state c) st"
    by (rule run_job_keeps[OF c Cons.prems(2)]) (use Cons.prems(3) in auto)
  from Cons.IH[OF rest this] Cons.prems(3) show ?case by simp
qed

lemma job_state_held:
  assumes fin: "run_jobs merge eq futs cyc = Inr fin" and j: "(j, Inr r) \<in> set futs"
    and compat: "\<forall>jo\<in>set futs. succeeded jo \<longrightarrow> same_key (j_state (fst jo)) (j_state j)
                   \<longrightarrow> j_state (fst jo) = j_state j"
  shows "holds eq (c_state fin) (j_state j)"
proof -
  from j obtain xs ys where futs: "futs = xs @ (j, Inr r) # ys" by (auto dest: split_list)
  from fin obtain c1 c2 where c1: "run_jobs merge eq xs cyc = Inr c1"
    and c2: "run_job merge eq c1 (j, Inr r) = Inr c2"
    and rest: "run_jobs merge eq ys c2 = Inr fin"
    unfolding futs by (auto simp: run_jobs_append split: sum.splits)
  from c2 have st: "set_state eq (c_state c1, c_dirty c1) (j_state j)
                      = Inr (c_state c2, c_dirty c2)"
    by (rule run_job_succeeded)
  obtain sec key val where k: "j_state j = (sec, key, val)" by (cases "j_state j")
  have "holds eq (c_state c2) (j_state j)"
    using set_state_same[OF st[unfolded k]] k by (auto simp: holds_def)
  from run_jobs_keeps[OF rest this] compat show ?thesis by (simp add: futs)
qed

lemma job_state_saved:
  assumes fin: "run_jobs merge eq futs cyc = Inr fin" and j: "(j, Inr r) \<in> set futs"
  shows "c_dirty fin
     \<or> eq (state_get (c_state cyc) (fst (j_state j)) (fst (snd (j_state j)))) (snd (snd (j_state j)))"
proof (cases "c_dirty fin")
  case False
  from j obtain xs ys where futs: "futs = xs @ (j, Inr r) # ys" by (auto dest: split_list)
  from fin obtain c1 c2 where c1: "run_jobs merge eq xs cyc = Inr c1"
    and c2: "run_job merge eq c1 (j, Inr r) = Inr c2"
    and rest: "run_jobs merge eq ys c2 = Inr fin"
    unfolding futs by (auto simp: run_jobs_append split: sum.splits)
  from c2 have st: "set_state eq (c_state c1, c_dirty c1) (j_state j)
                      = Inr (c_state c2, c_dirty c2)"
    by (rule run_job_succeeded)
  obtain sec key val where k: "j_state j = (sec, key, val)" by (cases "j_state j")
  have d2: "\<not> c_dirty c2" using run_jobs_dirty(1)[OF rest] False by blast
  then have "eq (state_get (c_state c1) sec key) val" and d1: "\<not> c_dirty c1"
    using set_state_dirty(1)[OF st[unfolded k]] by auto
  moreover have "state_get (c_state c1) = state_get (c_state cyc)"
    using run_jobs_dirty(2)[OF c1 d1] .
  ultimately show ?thesis using k by simp
qed simp

lemma finish_saves:
  assumes "finish rebuild fin disk = Inr (db, disk')"
  shows "disk' = (if c_dirty fin then c_state fin else disk)"
  using assms by (auto simp: finish_def split: sum.splits if_splits)


text \<open>
  A cycle of two jobs on an empty database and an empty state: the job of Claude Code and
  the job of Codex, each with the watermark of one file.
\<close>

definition cycle0 :: "(unit db, string) cycle" where
  "cycle0 = \<lparr>c_db = empty_db, c_state = [], c_dirty = False, c_total = [0, 0, 0, 0, 0],
              c_newc = 0, c_updc = 0, c_changed = False, c_log = []\<rparr>"

definition job_cc :: "unit job" where
  "job_cc = \<lparr>j_name = ''claude-code'', j_label = ''Claude Code'',
              j_source = Some ''claude-code'',
              j_func = Parser () ''proj'' (Some [''proj/b.jsonl'']),
              j_state = (''local'', ''claude-code'',
                         JDict [(''files'', JDict [(''proj/b.jsonl'', JFloat 3)])])\<rparr>"

definition job_codex :: "unit job" where
  "job_codex = \<lparr>j_name = ''codex'', j_label = ''Codex'', j_source = Some ''codex'',
                 j_func = Parser () ''cdx'' (Some [''/logs/proj/s.jsonl'']),
                 j_state = (''local'', ''codex'',
                            JDict [(''files'', JDict [(''/logs/proj/s.jsonl'', JFloat 9)])])\<rparr>"

text \<open>
  A Codex log of one message with the text "hi" and the role \<^verbatim>\<open>null\<close>, and the result of
  the Codex normalizer on it: the role of the message row is \<^verbatim>\<open>None\<close>.
\<close>

definition null_role_event :: json where
  "null_role_event =
     JDict [(''type'', JStr ''response_item''),
            (''payload'', JDict [(''type'', JStr ''message''), (''role'', JNull),
               (''content'', JList [JDict [(''type'', JStr ''input_text''),
                                            (''text'', JStr ''hi'')]])])]"

definition null_role_result :: "unit parse_result" where
  "null_role_result =
     \<lparr>convs = [codex_conv log0 [] []],
      msgs = [\<lparr>msg_id = gen_id8 codex_src (msg_key (gen_id8 codex_src (p_str log0)) 0),
               msg_conversation_id = gen_id8 codex_src (p_str log0), msg_role = JNull,
               msg_content = ''hi'', msg_thinking = None, msg_created_at = None,
               msg_model = JNull, msg_metadata = JDict []\<rparr>],
      tools = [], attachs = [], artifacts = [], edits = []\<rparr>"

lemma null_role_parsed:
  "parse_codex lib_echo True [(log0, [null_role_event])] = Inr null_role_result"
  by (simp add: parse_codex_def parse_codex_session_def null_role_event_def timestamps_of_def
      py_in_def has_key_def and_then_def py_get_def dget_def subscript_def items_of_def
      List.enumerate_eq_zip codex_msg_item_def extract_msg_text_def py_iter_def
      is_text_block_def join_json_def codex_call_item_def codex_output_item_def
      codex_edit_item_def strip_def is_space_hi ts_at_def result_of_sessions_def
      null_role_result_def)

lemma null_role_refused: "upsert_checked d null_role_result
    = Inl ''NOT NULL constraint failed: messages.role''"
  by (simp add: upsert_checked_def null_role_result_def)

lemma empty_result_merged:
  "upsert_checked (empty_db :: unit db) ParseResult
     = Inr (empty_db, \<lparr>n_convs = 0, n_msgs = 0, n_tools = 0, n_attachs = 0, n_edits = 0,
                       n_new = 0, n_updated = 0\<rparr>)"
  by (simp add: upsert_checked_def upsert_def upsert_store_def upsert_stats_def ParseResult_def
      empty_db_def insert_all_Nil)


text \<open>
  C9, for the cycles in which no merge raises. Let the jobs complete in any order. A job
  that raised adds the line with its name and its exception and changes nothing else, and
  the cycle goes on: the database, the state, the totals, and whether the cycle ends by an
  exception, are those of the cycle without the failed jobs. When the loop comes to its
  end, the lines of the failures are those of the failed jobs in their order; the database
  is the one the merges of the results make in their order; for every job that returned a
  result, with rows or without, the state holds its watermark, unless a later job of the
  same key stored another, and either the state is marked to be saved or it held an equal
  watermark before; and the state file is the state if it was marked and is unchanged
  otherwise. An exception of the merge, of \<^verbatim>\<open>set_state\<close> or of the index ends
  \<^verbatim>\<open>do_sync\<close>.
\<close>

theorem sync_failure_isolation:
  "run_job merge eq cyc (j, Inl e) = Inr (cyc\<lparr>c_log := c_log cyc @ [Failed (j_name j) e]\<rparr>)
   \<and> effect (run_jobs merge eq futs cyc)
       = effect (run_jobs merge eq (filter succeeded futs) cyc)
   \<and> (run_jobs merge eq futs cyc = Inr fin \<longrightarrow>
        filter is_failure (c_log fin) = filter is_failure (c_log cyc) @ failure_lines futs
        \<and> merge_all merge (c_db cyc) (results futs) = Inr (c_db fin)
        \<and> (\<forall>j' r. (j', Inr r) \<in> set futs \<longrightarrow>
              (c_dirty fin
               \<or> eq (state_get (c_state cyc) (fst (j_state j')) (fst (snd (j_state j'))))
                     (snd (snd (j_state j'))))
              \<and> ((\<forall>jo\<in>set futs. succeeded jo \<longrightarrow> same_key (j_state (fst jo)) (j_state j')
                      \<longrightarrow> j_state (fst jo) = j_state j')
                   \<longrightarrow> holds eq (c_state fin) (j_state j')))
        \<and> (finish rebuild fin disk = Inr (db, disk')
             \<longrightarrow> disk' = (if c_dirty fin then c_state fin else disk)))
   \<and> do_sync merge rebuild eq futs cyc disk
       = (case run_jobs merge eq futs cyc of
            Inl a \<Rightarrow> Inl a
          | Inr fin \<Rightarrow> finish rebuild fin disk)"
  apply (intro conjI impI allI)
  subgoal by (rule run_job_failed)
  subgoal by (rule failed_job_isolated)
  subgoal by (rule failures_logged)
  subgoal by (rule results_merged)
  subgoal by (rule job_state_saved)
  subgoal by (rule job_state_held)
  subgoal by (rule finish_saves)
  subgoal by (simp add: do_sync_def)
  done

text \<open>
  As the claim has it, every job that completes without error has its result merged and
  its watermark persisted. The job of Claude Code returns a result without rows and the
  job of Codex the result of the log above. In either order of completion the merge of
  the second raises, \<^verbatim>\<open>do_sync\<close> ends by the exception, and the state file is not written:
  the watermark of the job of Claude Code is not persisted, and when the job of Codex
  completes first its result is not merged either.
\<close>

theorem merge_error_ends_cycle:
  "parse_codex lib_echo True [(log0, [null_role_event])] = Inr null_role_result
   \<and> do_sync upsert_checked Inr (=) [(job_codex, Inr null_role_result), (job_cc, Inr ParseResult)]
        cycle0 [] = Inl (MergeRaised ''NOT NULL constraint failed: messages.role'')
   \<and> do_sync upsert_checked Inr (=) [(job_cc, Inr ParseResult), (job_codex, Inr null_role_result)]
        cycle0 [] = Inl (MergeRaised ''NOT NULL constraint failed: messages.role'')"
  by (simp add: null_role_parsed do_sync_def run_job_def null_role_refused cycle0_def
      empty_result_merged set_state_def setdefault_def has_key_def dget_def job_cc_def)


text \<open>
  The cycle in which the job of Claude Code raises and the job of Codex returns a result
  without rows, and the cycle state at the end of its loop.
\<close>

definition futs0 :: "(unit job \<times> (string + unit parse_result)) list" where
  "futs0 = [(job_cc, Inl ''boom''), (job_codex, Inr ParseResult)]"

definition fin0 :: "(unit db, string) cycle" where
  "fin0 =
     \<lparr>c_db = empty_db,
      c_state = [(''local'', JDict [(''codex'',
                   JDict [(''files'', JDict [(''/logs/proj/s.jsonl'', JFloat 9)])])])],
      c_dirty = True, c_total = [0, 0, 0, 0, 0], c_newc = 0, c_updc = 0, c_changed = False,
      c_log = [Failed ''claude-code'' ''boom'',
               Updated ''Codex'' \<lparr>n_convs = 0, n_msgs = 0, n_tools = 0, n_attachs = 0,
                                 n_edits = 0, n_new = 0, n_updated = 0\<rparr>]\<rparr>"

lemma futs0_run: "run_jobs upsert_checked (=) futs0 cycle0 = Inr fin0"
  by (simp add: futs0_def fin0_def run_job_def cycle0_def empty_result_merged set_state_def
      setdefault_def has_key_def dget_def job_cc_def job_codex_def counts_list_def
      has_source_def)

theorem sync_failure_isolation_witness:
  "run_jobs upsert_checked (=) futs0 cycle0 = Inr fin0
   \<and> filter is_failure (c_log fin0) = [Failed ''claude-code'' ''boom'']
   \<and> merge_all upsert_checked empty_db [ParseResult] = Inr (c_db fin0)
   \<and> c_dirty fin0
   \<and> holds (=) (c_state fin0) (j_state job_codex)
   \<and> state_get (c_state fin0) ''local'' ''claude-code'' = JNull
   \<and> finish Inr fin0 [] = Inr (empty_db, c_state fin0)"
proof -
  note t = sync_failure_isolation [where merge = upsert_checked and eq = "(=)" and futs = futs0
      and cyc = cycle0 and fin = fin0 and rebuild = Inr and disk = "[]" and db = empty_db
      and disk' = "c_state fin0", THEN conjunct2, THEN conjunct2, THEN conjunct1,
      THEN mp, OF futs0_run]
  have 1: "filter is_failure (c_log fin0) = [Failed ''claude-code'' ''boom'']"
    using t[THEN conjunct1]
    by (simp add: cycle0_def futs0_def failure_lines_def List.map_filter_simps job_cc_def)
  have 2: "merge_all upsert_checked empty_db [ParseResult] = Inr (c_db fin0)"
    using t[THEN conjunct2, THEN conjunct1]
    by (simp add: cycle0_def futs0_def results_def List.map_filter_simps)
  note s = t[THEN conjunct2, THEN conjunct2, THEN conjunct1, rule_format, of job_codex ParseResult]
  have 3: "c_dirty fin0"
    using s[THEN conjunct1]
    by (simp add: futs0_def cycle0_def job_codex_def state_get_def dget_def)
  have 4: "holds (=) (c_state fin0) (j_state job_codex)"
    using s[THEN conjunct2]
    by (simp add: futs0_def succeeded_simps)
  have 5: "state_get (c_state fin0) ''local'' ''claude-code'' = JNull"
    by (simp add: fin0_def state_get_def dget_def)
  have 6: "finish Inr fin0 [] = Inr (empty_db, c_state fin0)"
    by (simp add: finish_def fin0_def)
  show ?thesis using futs0_run 1 2 3 4 5 6 by simp
qed

end
